theory Spec2Isabelle
  imports Complex_Main
begin

section \<open>Data model\<close>

text \<open>
  The development follows \<^verbatim>\<open>txtslice/tiler_algorithm.py\<close> (class \<^verbatim>\<open>TextTiler\<close> and the
  function \<^verbatim>\<open>smooth\<close>), \<^verbatim>\<open>txtslice/segment_picker.py\<close> (class \<^verbatim>\<open>ClipFinder\<close>) and
  \<^verbatim>\<open>txtslice/matcher.py\<close> (class \<^verbatim>\<open>MediaSegment\<close>).

  Floating-point numbers are read as real numbers. A two-dimensional tensor of shape
  \<open>(N, E)\<close> is the list of its \<open>N\<close> rows; a one-dimensional tensor or numpy array is a list.
  Every exception the code can raise is a value of \<open>error\<close>, returned on the left of a sum.
\<close>

datatype error =
    ConfigError
  | ClipFinderError
  | TextTilerError
  | ValueError
  | IndexError
  | RuntimeError

type_synonym vec = "real list"
type_synonym tensor = "real list list"

section \<open>Python slices\<close>

text \<open>
  \<^verbatim>\<open>xs[start:stop]\<close>: a negative bound counts from the end, and both bounds are clipped
  to \<open>0 .. len(xs)\<close>.
\<close>

definition adjust_fwd :: "int \<Rightarrow> int \<Rightarrow> nat" where
  "adjust_fwd n i = nat (if i < 0 then max 0 (i + n) else min i n)"

definition slice_fwd :: "'a list \<Rightarrow> int \<Rightarrow> int \<Rightarrow> 'a list" where
  "slice_fwd xs start stop =
     (let n = int (length xs); a = adjust_fwd n start; b = adjust_fwd n stop
      in take (b - a) (drop a xs))"

text \<open>
  \<^verbatim>\<open>xs[start:stop:-1]\<close>: a negative bound counts from the end, and both bounds are clipped
  to \<open>-1 .. len(xs) - 1\<close>; the elements are those at \<open>start, start - 1, \<dots>\<close> down to, and
  excluding, \<open>stop\<close>.
\<close>

definition adjust_rev :: "int \<Rightarrow> int \<Rightarrow> int" where
  "adjust_rev n i = (if i < 0 then max (- 1) (i + n) else min i (n - 1))"

definition slice_rev :: "'a list \<Rightarrow> int \<Rightarrow> int \<Rightarrow> 'a list" where
  "slice_rev xs start stop =
     (let n = int (length xs); a = adjust_rev n start; b = adjust_rev n stop
      in rev (take (nat (a - b)) (drop (nat (b + 1)) xs)))"

section \<open>Smoothing\<close>

text \<open>
  \<^verbatim>\<open>numpy.convolve(a, v, mode)\<close>. The full discrete convolution has
  \<open>len(a) + len(v) - 1\<close> entries; mode \<^verbatim>\<open>"same"\<close> returns the \<open>max(len(a), len(v))\<close>
  entries of it that start at offset \<open>(min(len(a), len(v)) - 1) div 2\<close>. An empty argument
  raises \<^verbatim>\<open>ValueError\<close>.
\<close>

definition convolve_full :: "real list \<Rightarrow> real list \<Rightarrow> real list" where
  "convolve_full a v =
     map (\<lambda>k. \<Sum>j\<leftarrow>[0..<length a]. if j \<le> k \<and> k - j < length v then a ! j * v ! (k - j) else 0)
         [0..<length a + length v - 1]"

definition convolve_same :: "real list \<Rightarrow> real list \<Rightarrow> error + real list" where
  "convolve_same a v =
     (if a = [] \<or> v = [] then Inl ValueError
      else Inr (take (max (length a) (length v))
                  (drop ((min (length a) (length v) - 1) div 2) (convolve_full a v))))"

text \<open>
  \<^verbatim>\<open>smooth(x, window_len, window="flat")\<close>. The only caller, \<^verbatim>\<open>TextTiler._smooth_scores\<close>,
  passes a one-dimensional array and the window \<^verbatim>\<open>"flat"\<close>, so the checks of the dimension and
  of the window name always pass and the kernel is \<^verbatim>\<open>numpy.ones(window_len)\<close>.
  The order of the guards is the source's: the size check comes before the check
  \<^verbatim>\<open>window_len < 3\<close>.
\<close>

definition smooth :: "real list \<Rightarrow> int \<Rightarrow> error + real list" where
  "smooth x window_len =
     (if int (length x) < window_len then Inl ValueError
      else if window_len < 3 then Inr x
      else
        let s = map (\<lambda>v. 2 * hd x - v) (slice_rev x window_len 1) @ x @
                map (\<lambda>v. 2 * last x - v) (slice_rev x (- 1) (- window_len));
            w = replicate (nat window_len) (1::real)
        in case convolve_same (map (\<lambda>c. c / sum_list w) w) s of
             Inl e \<Rightarrow> Inl e
           | Inr y \<Rightarrow> Inr (slice_fwd y (window_len - 1) (- window_len + 1)))"

definition smooth_scores :: "real list \<Rightarrow> int \<Rightarrow> error + real list" where
  "smooth_scores scores width = smooth scores width"

section \<open>Pooling and similarity\<close>

text \<open>
  \<^verbatim>\<open>torch.mean(t, dim=0)\<close> and \<^verbatim>\<open>max_magnitude_2d(t, dim=0)\<close> reduce the rows of a
  tensor to one row, column by column. \<^verbatim>\<open>torch.max\<close> returns the index of the first
  maximal value of a column.
\<close>

definition columns :: "tensor \<Rightarrow> real list list" where
  "columns t = map (\<lambda>j. map (\<lambda>r. r ! j) t) [0..<length (hd t)]"

definition mean_list :: "real list \<Rightarrow> real" where
  "mean_list xs = sum_list xs / real (length xs)"

definition torch_mean :: "tensor \<Rightarrow> vec" where
  "torch_mean t = map mean_list (columns t)"

fun argmax_from :: "real list \<Rightarrow> nat \<Rightarrow> nat \<Rightarrow> real \<Rightarrow> nat" where
  "argmax_from [] i best_i best = best_i"
| "argmax_from (x # xs) i best_i best =
     (if x > best then argmax_from xs (Suc i) i x else argmax_from xs (Suc i) best_i best)"

definition argmax :: "real list \<Rightarrow> nat" where
  "argmax xs = (case xs of [] \<Rightarrow> 0 | x # ys \<Rightarrow> argmax_from ys 1 0 x)"

definition max_magnitude_2d :: "tensor \<Rightarrow> vec" where
  "max_magnitude_2d t = map (\<lambda>c. c ! argmax (map abs c)) (columns t)"

definition get_pool_method :: "string \<Rightarrow> error + (tensor \<Rightarrow> vec)" where
  "get_pool_method name =
     (if name = ''mean'' then Inr torch_mean
      else if name = ''max'' then Inr max_magnitude_2d
      else Inl TextTilerError)"

text \<open>
  \<^verbatim>\<open>torch.nn.functional.cosine_similarity(x1, x2, dim=0)\<close> with its default
  \<open>eps = 1e-8\<close>: the dot product divided by \<open>max(\<parallel>x1\<parallel>, eps) * max(\<parallel>x2\<parallel>, eps)\<close>.
\<close>

definition dot :: "vec \<Rightarrow> vec \<Rightarrow> real" where
  "dot a b = sum_list (map2 (*) a b)"

definition l2norm :: "vec \<Rightarrow> real" where
  "l2norm a = sqrt (dot a a)"

definition cosine_eps :: real where
  "cosine_eps = 1 / 100000000"

definition cosine_similarity :: "vec \<Rightarrow> vec \<Rightarrow> real" where
  "cosine_similarity a b = dot a b / (max (l2norm a) cosine_eps * max (l2norm b) cosine_eps)"

section \<open>The boundary detector\<close>

text \<open>\<^verbatim>\<open>TextTiler._calc_gap_scores\<close>; \<^verbatim>\<open>torch.empty(N - 1)\<close> raises for \<open>N = 0\<close>.\<close>

definition calc_gap_scores :: "tensor \<Rightarrow> int \<Rightarrow> string \<Rightarrow> error + real list" where
  "calc_gap_scores embeddings k pool_method =
     (case get_pool_method pool_method of
        Inl e \<Rightarrow> Inl e
      | Inr pool \<Rightarrow>
          let N = int (length embeddings) in
          if N - 1 < 0 then Inl RuntimeError
          else Inr (map (\<lambda>i.
                 let left = slice_fwd embeddings (max 0 (i - k + 1)) (i + 1);
                     right = slice_fwd embeddings (i + 1) (min (i + 1 + k) N)
                 in cosine_similarity (pool left) (pool right))
               (map int [0..<nat (N - 1)])))"

text \<open>\<^verbatim>\<open>TextTiler._calc_depth_scores\<close>; Python's \<^verbatim>\<open>max\<close> over a non-empty generator.\<close>

definition max_of :: "real list \<Rightarrow> real" where
  "max_of xs = foldl max (hd xs) (tl xs)"

definition calc_depth_scores :: "real list \<Rightarrow> real list" where
  "calc_depth_scores gap_scores =
     (let N = int (length gap_scores) in
      map (\<lambda>i.
        let g = gap_scores ! nat i;
            left_peak = max_of (map (\<lambda>j. gap_scores ! nat (max 0 (i - j))) (map int [0..<nat (i + 1)]));
            right_peak = max_of (map (\<lambda>j. gap_scores ! nat (min (N - 1) (i + j))) (map int [0..<nat (N - i)]))
        in (left_peak - g) + (right_peak - g))
      (map int [0..<nat N]))"

text \<open>
  \<^verbatim>\<open>TextTiler._identify_boundaries\<close>. \<^verbatim>\<open>torch.std(depths, unbiased=False)\<close> is the
  population standard deviation. The flags are the entries of a tensor of \<open>len(depths) + 1\<close>
  zeros, set to one where the loop or the final assignment writes.
\<close>

definition torch_std :: "real list \<Rightarrow> real" where
  "torch_std xs = sqrt (sum_list (map (\<lambda>x. (x - mean_list xs) ^ 2) xs) / real (length xs))"

definition cutoff_of :: "string \<Rightarrow> real \<Rightarrow> real \<Rightarrow> real option" where
  "cutoff_of policy avg std =
     (if policy = ''average'' then Some avg
      else if policy = ''high'' then Some (avg + std)
      else if policy = ''low'' then Some (avg - std)
      else None)"

definition is_peak :: "real list \<Rightarrow> real \<Rightarrow> int \<Rightarrow> bool" where
  "is_peak depths cutoff i =
     (depths ! nat i > cutoff \<and>
      depths ! nat i > depths ! nat (max 0 (i - 1)) \<and>
      depths ! nat i > depths ! nat (min (i + 1) (int (length depths) - 1)))"

definition identify_boundaries :: "real list \<Rightarrow> string \<Rightarrow> error + real list" where
  "identify_boundaries depths policy =
     (let N = length depths + 1;
          avg = mean_list depths;
          std = torch_std depths
      in case cutoff_of policy avg std of
           None \<Rightarrow> Inl TextTilerError
         | Some cutoff \<Rightarrow>
             Inr ((map (\<lambda>i. if is_peak depths cutoff (int i) then 1 else 0) [0..<length depths] @ [0])
                    [N - 1 := 1]))"

text \<open>
  \<^verbatim>\<open>TextTiler._pool_embedding_groups\<close>. Reading \<^verbatim>\<open>boundaries[i]\<close> past the end of the
  flags raises \<^verbatim>\<open>IndexError\<close>; \<^verbatim>\<open>torch.stack\<close> of an empty list raises
  \<^verbatim>\<open>RuntimeError\<close>.
\<close>

fun pool_loop :: "(tensor \<Rightarrow> vec) \<Rightarrow> real list \<Rightarrow> tensor \<Rightarrow> nat \<Rightarrow> tensor \<Rightarrow> tensor \<Rightarrow> error + tensor" where
  "pool_loop pool boundaries [] i grp pooled = Inr pooled"
| "pool_loop pool boundaries (e # es) i grp pooled =
     (if i \<ge> length boundaries then Inl IndexError
      else if boundaries ! i = 1
        then pool_loop pool boundaries es (Suc i) [] (pooled @ [pool (grp @ [e])])
        else pool_loop pool boundaries es (Suc i) (grp @ [e]) pooled)"

definition pool_embedding_groups :: "tensor \<Rightarrow> real list \<Rightarrow> string \<Rightarrow> error + tensor" where
  "pool_embedding_groups embeddings boundaries pool_method =
     (case get_pool_method pool_method of
        Inl e \<Rightarrow> Inl e
      | Inr pool \<Rightarrow>
          (case pool_loop pool boundaries embeddings 0 [] [] of
             Inl e \<Rightarrow> Inl e
           | Inr pooled \<Rightarrow> if pooled = [] then Inl RuntimeError else Inr pooled))"

text \<open>
  \<^verbatim>\<open>TextTilerConfigManager.check_valid_config\<close>: \<open>True\<close> when the checker returns
  \<^verbatim>\<open>None\<close>. \<^verbatim>\<open>assert_valid_config\<close> raises \<^verbatim>\<open>ConfigError\<close> otherwise.
\<close>

definition check_valid_pool_method :: "string \<Rightarrow> bool" where
  "check_valid_pool_method method = (method \<in> set [''mean'', ''max''])"

definition check_valid_cutoff_policy :: "string \<Rightarrow> bool" where
  "check_valid_cutoff_policy policy = (policy \<in> set [''average'', ''low'', ''high''])"

definition check_valid_k :: "int \<Rightarrow> bool" where
  "check_valid_k k = (\<not> k < 2)"

definition check_valid_smoothing_width :: "int \<Rightarrow> bool" where
  "check_valid_smoothing_width width = (\<not> width < 3)"

definition check_valid_config :: "int \<Rightarrow> string \<Rightarrow> string \<Rightarrow> int \<Rightarrow> string \<Rightarrow> bool" where
  "check_valid_config k window_compare_pool_method embedding_aggregation_pool_method
       smoothing_width cutoff_policy =
     (check_valid_cutoff_policy cutoff_policy \<and>
      check_valid_pool_method embedding_aggregation_pool_method \<and>
      check_valid_k k \<and>
      check_valid_smoothing_width smoothing_width \<and>
      check_valid_pool_method window_compare_pool_method)"

text \<open>\<^verbatim>\<open>TextTiler.text_tile\<close>: the flags and the pooled embeddings, or the exception raised.\<close>

definition text_tile ::
  "tensor \<Rightarrow> int \<Rightarrow> string \<Rightarrow> string \<Rightarrow> int \<Rightarrow> string \<Rightarrow> error + (real list \<times> tensor)" where
  "text_tile embeddings k window_compare_pool_method embedding_aggregation_pool_method
       smoothing_width cutoff_policy =
     (if \<not> check_valid_config k window_compare_pool_method embedding_aggregation_pool_method
            smoothing_width cutoff_policy
      then Inl ConfigError
      else
        let N = int (length embeddings);
            k' = (if k \<ge> N then max (N div 5) 2 else k);
            smoothing_width' = (if smoothing_width \<ge> N then 2 else smoothing_width)
        in case calc_gap_scores embeddings k' window_compare_pool_method of
             Inl e \<Rightarrow> Inl e
           | Inr unsmoothed_scores \<Rightarrow>
        (case smooth_scores unsmoothed_scores smoothing_width' of
             Inl e \<Rightarrow> Inl e
           | Inr smoothed_scores \<Rightarrow>
        (case identify_boundaries (calc_depth_scores smoothed_scores) cutoff_policy of
             Inl e \<Rightarrow> Inl e
           | Inr boundaries \<Rightarrow>
        (case pool_embedding_groups embeddings boundaries embedding_aggregation_pool_method of
             Inl e \<Rightarrow> Inl e
           | Inr pooled_embeddings \<Rightarrow> Inr (boundaries, pooled_embeddings)))))"

section \<open>The hierarchical driver\<close>

text \<open>
  A clip is the dictionary the driver works on: the four offsets and, for a clip built
  by \<^verbatim>\<open>_text_tile\<close>, the norm of its pooled embedding. The atomic units returned by
  \<^verbatim>\<open>get_sentence_info\<close> are read through the same four keys.
\<close>

record clip =
  start_char :: int
  end_char :: int
  start_time :: real
  end_time :: real
  clip_norm :: real

text \<open>The attributes of a \<^verbatim>\<open>ClipFinder\<close> that the segmentation reads.\<close>

record clip_finder =
  cf_min_clip_duration :: real
  cf_max_clip_duration :: real
  cf_cutoff_policy :: string
  cf_embedding_aggregation_pool_method :: string
  cf_smoothing_width :: int
  cf_window_compare_pool_method :: string

text \<open>\<^verbatim>\<open>MediaSegment\<close> of \<^verbatim>\<open>matcher.py\<close>, with its \<^verbatim>\<open>__bool__\<close>.\<close>

record media_segment =
  begin_sec :: real
  finish_sec :: real
  text_start_idx :: int
  text_end_idx :: int

definition segment_bool :: "media_segment \<Rightarrow> bool" where
  "segment_bool s =
     (begin_sec s \<noteq> 0 \<and> finish_sec s \<noteq> 0 \<and> text_start_idx s \<noteq> 0 \<and> text_end_idx s \<noteq> 0)"

text \<open>\<^verbatim>\<open>ClipFinder._is_duplicate\<close> and \<^verbatim>\<open>ClipFinder._remove_duplicates\<close>.\<close>

fun is_duplicate :: "clip \<Rightarrow> clip list \<Rightarrow> bool" where
  "is_duplicate seg [] = False"
| "is_duplicate seg (ref # existing) =
     (if \<bar>start_time seg - start_time ref\<bar> + \<bar>end_time seg - end_time ref\<bar> < 15 then True
      else is_duplicate seg existing)"

fun remove_duplicates :: "clip list \<Rightarrow> clip list \<Rightarrow> real \<Rightarrow> real \<Rightarrow> clip list" where
  "remove_duplicates [] existing min_dur max_dur = []"
| "remove_duplicates (c # potential) existing min_dur max_dur =
     (let duration = end_time c - start_time c in
      if \<not> (min_dur \<le> duration \<and> duration \<le> max_dur)
        then remove_duplicates potential existing min_dur max_dur
      else if is_duplicate c existing
        then remove_duplicates potential existing min_dur max_dur
      else c # remove_duplicates potential existing min_dur max_dur)"

text \<open>
  The loop of \<^verbatim>\<open>ClipFinder._text_tile\<close> over \<^verbatim>\<open>range(len(clips))\<close>, with its three
  variables \<^verbatim>\<open>start_idx\<close>, \<^verbatim>\<open>super_idx\<close> and \<^verbatim>\<open>super_clips\<close>. After a boundary the
  source assigns \<^verbatim>\<open>start_idx = end_idx\<close>.
\<close>

fun super_loop ::
  "clip list \<Rightarrow> real list \<Rightarrow> tensor \<Rightarrow> nat list \<Rightarrow> nat \<Rightarrow> nat \<Rightarrow> clip list \<Rightarrow> error + clip list" where
  "super_loop clips boundaries new_embeddings [] start_idx super_idx super_clips = Inr super_clips"
| "super_loop clips boundaries new_embeddings (i # rest) start_idx super_idx super_clips =
     (if i \<ge> length boundaries then Inl IndexError
      else if boundaries ! i = 1 then
        (if super_idx \<ge> length new_embeddings then Inl IndexError
         else
           let end_idx = i;
               combined = \<lparr>start_char = start_char (clips ! start_idx),
                           end_char = end_char (clips ! end_idx),
                           start_time = start_time (clips ! start_idx),
                           end_time = end_time (clips ! end_idx),
                           clip_norm = l2norm (new_embeddings ! super_idx)\<rparr>
           in super_loop clips boundaries new_embeddings rest end_idx (Suc super_idx)
                (super_clips @ [combined]))
      else super_loop clips boundaries new_embeddings rest start_idx super_idx super_clips)"

definition cf_text_tile :: "clip_finder \<Rightarrow> clip list \<Rightarrow> tensor \<Rightarrow> int \<Rightarrow> error + (clip list \<times> tensor)" where
  "cf_text_tile cf clips clip_embeddings k =
     (if length clip_embeddings \<noteq> length clips then Inl ClipFinderError
      else
        let k' = min k (max 3 (int (length clip_embeddings))) in
        case text_tile clip_embeddings k' (cf_window_compare_pool_method cf)
               (cf_embedding_aggregation_pool_method cf) (cf_smoothing_width cf)
               (cf_cutoff_policy cf) of
          Inl e \<Rightarrow> Inl e
        | Inr (boundaries, new_embeddings) \<Rightarrow>
            (case super_loop clips boundaries new_embeddings [0..<length clips] 0 0 [] of
               Inl e \<Rightarrow> Inl e
             | Inr super_clips \<Rightarrow> Inr (super_clips, new_embeddings)))"

text \<open>
  \<^verbatim>\<open>ClipFinder._text_tile_multiple_rounds\<close>: the \<^verbatim>\<open>while\<close> loop, with \<open>None\<close> for a run
  that never leaves it.
\<close>

partial_function (option) text_tile_multiple_rounds ::
  "clip_finder \<Rightarrow> clip list \<Rightarrow> tensor \<Rightarrow> int \<Rightarrow> real \<Rightarrow> real \<Rightarrow> clip list \<Rightarrow> (error + clip list) option" where
  "text_tile_multiple_rounds cf clips clip_embeddings k min_clip_duration max_clip_duration final_clips =
     (if length clip_embeddings > 8 then
        (case cf_text_tile cf clips clip_embeddings k of
           Inl e \<Rightarrow> Some (Inl e)
         | Inr (super_clips, super_embeddings) \<Rightarrow>
             text_tile_multiple_rounds cf super_clips super_embeddings k
               min_clip_duration max_clip_duration
               (final_clips @ remove_duplicates super_clips final_clips min_clip_duration max_clip_duration))
      else Some (Inr final_clips))"

text \<open>
  \<^verbatim>\<open>ClipFinder.find_clips\<close>. The transcription enters through what the method reads of
  it: the sentence units, their embeddings as returned by the embedder, its
  \<^verbatim>\<open>end_time\<close> and the number of its characters. The schedule is the source's list of
  window sizes with their minimum durations, flattened in the order of the two loops.
\<close>

definition schedule :: "clip_finder \<Rightarrow> (int \<times> real) list" where
  "schedule cf =
     concat (map (\<lambda>(k_vals, min_sec). map (\<lambda>k. (k, min_sec)) k_vals)
       [([5, 7], cf_min_clip_duration cf), ([11, 17], 180), ([37, 53, 73, 97], 600)])"

fun run_schedule ::
  "clip_finder \<Rightarrow> clip list \<Rightarrow> tensor \<Rightarrow> (int \<times> real) list \<Rightarrow> clip list \<Rightarrow> (error + clip list) option" where
  "run_schedule cf sentences_info sentence_embeddings [] clips = Some (Inr clips)"
| "run_schedule cf sentences_info sentence_embeddings ((k, min_sec) # rest) clips =
     (case text_tile_multiple_rounds cf sentences_info sentence_embeddings k min_sec
             (cf_max_clip_duration cf) clips of
        None \<Rightarrow> None
      | Some (Inl e) \<Rightarrow> Some (Inl e)
      | Some (Inr clips') \<Rightarrow> run_schedule cf sentences_info sentence_embeddings rest clips')"

definition seed_clips :: "clip_finder \<Rightarrow> real \<Rightarrow> nat \<Rightarrow> clip list" where
  "seed_clips cf transcription_end_time num_chars =
     (if transcription_end_time \<le> cf_max_clip_duration cf
      then [\<lparr>start_char = 0, end_char = int num_chars, start_time = 0,
              end_time = transcription_end_time, clip_norm = 1\<rparr>]
      else [])"

definition to_segment :: "clip \<Rightarrow> media_segment" where
  "to_segment c = \<lparr>begin_sec = start_time c, finish_sec = end_time c,
                    text_start_idx = start_char c, text_end_idx = end_char c\<rparr>"

definition find_clips ::
  "clip_finder \<Rightarrow> clip list \<Rightarrow> tensor \<Rightarrow> real \<Rightarrow> nat \<Rightarrow> (error + media_segment list) option" where
  "find_clips cf sentences_info sentence_embeddings transcription_end_time num_chars =
     (case run_schedule cf sentences_info sentence_embeddings (schedule cf)
             (seed_clips cf transcription_end_time num_chars) of
        None \<Rightarrow> None
      | Some (Inl e) \<Rightarrow> Some (Inl e)
      | Some (Inr clips) \<Rightarrow> Some (Inr (map to_segment clips)))"

text \<open>
  The same three functions once more, recording what the run accepts. \<open>rounds_trace\<close> is
  the loop of \<^verbatim>\<open>_text_tile_multiple_rounds\<close> with one more variable, the list of the
  \<^verbatim>\<open>new_clips\<close> of its iterations in order; \<open>schedule_trace\<close> keeps that list for every
  entry of the schedule, in the order of the schedule; \<open>find_clips_trace\<close> returns the
  segments of \<^verbatim>\<open>find_clips\<close> together with these batches, as segments. Their first
  components are proved below to be the results of the functions above.
\<close>

partial_function (option) rounds_trace ::
  "clip_finder \<Rightarrow> clip list \<Rightarrow> tensor \<Rightarrow> int \<Rightarrow> real \<Rightarrow> real \<Rightarrow> clip list \<Rightarrow> clip list list
     \<Rightarrow> (error + clip list \<times> clip list list) option" where
  "rounds_trace cf clips clip_embeddings k min_clip_duration max_clip_duration final_clips batches =
     (if length clip_embeddings > 8 then
        (case cf_text_tile cf clips clip_embeddings k of
           Inl e \<Rightarrow> Some (Inl e)
         | Inr (super_clips, super_embeddings) \<Rightarrow>
             rounds_trace cf super_clips super_embeddings k min_clip_duration max_clip_duration
               (final_clips @ remove_duplicates super_clips final_clips min_clip_duration max_clip_duration)
               (batches @ [remove_duplicates super_clips final_clips min_clip_duration max_clip_duration]))
      else Some (Inr (final_clips, batches)))"

fun schedule_trace ::
  "clip_finder \<Rightarrow> clip list \<Rightarrow> tensor \<Rightarrow> (int \<times> real) list \<Rightarrow> clip list \<Rightarrow> clip list list list
     \<Rightarrow> (error + clip list \<times> clip list list list) option" where
  "schedule_trace cf sentences_info sentence_embeddings [] clips per_entry = Some (Inr (clips, per_entry))"
| "schedule_trace cf sentences_info sentence_embeddings ((k, min_sec) # rest) clips per_entry =
     (case rounds_trace cf sentences_info sentence_embeddings k min_sec
             (cf_max_clip_duration cf) clips [] of
        None \<Rightarrow> None
      | Some (Inl e) \<Rightarrow> Some (Inl e)
      | Some (Inr (clips', batches)) \<Rightarrow>
          schedule_trace cf sentences_info sentence_embeddings rest clips' (per_entry @ [batches]))"

definition find_clips_trace ::
  "clip_finder \<Rightarrow> clip list \<Rightarrow> tensor \<Rightarrow> real \<Rightarrow> nat
     \<Rightarrow> (error + media_segment list \<times> media_segment list list list) option" where
  "find_clips_trace cf sentences_info sentence_embeddings transcription_end_time num_chars =
     (case schedule_trace cf sentences_info sentence_embeddings (schedule cf)
             (seed_clips cf transcription_end_time num_chars) [] of
        None \<Rightarrow> None
      | Some (Inl e) \<Rightarrow> Some (Inl e)
      | Some (Inr (clips, per_entry)) \<Rightarrow>
          Some (Inr (map to_segment clips, map (map (map to_segment)) per_entry)))"

section \<open>A worked transcript\<close>

text \<open>
  Nine sentence units with one-dimensional embeddings of alternating sign, used to run
  the definitions on a concrete input. The first sentence lasts twenty seconds, the
  others two seconds each; every sentence has ten characters.
\<close>

definition example_cf :: clip_finder where
  "example_cf = \<lparr>cf_min_clip_duration = 4, cf_max_clip_duration = 900,
     cf_cutoff_policy = ''average'', cf_embedding_aggregation_pool_method = ''max'',
     cf_smoothing_width = 3, cf_window_compare_pool_method = ''mean''\<rparr>"

definition sentence_unit :: "int \<Rightarrow> int \<Rightarrow> real \<Rightarrow> real \<Rightarrow> clip" where
  "sentence_unit sc ec st et =
     \<lparr>start_char = sc, end_char = ec, start_time = st, end_time = et, clip_norm = 0\<rparr>"

definition example_units :: "clip list" where
  "example_units =
     [sentence_unit 0 10 0 20, sentence_unit 10 20 20 22, sentence_unit 20 30 22 24,
      sentence_unit 30 40 24 26, sentence_unit 40 50 26 28, sentence_unit 50 60 28 30,
      sentence_unit 60 70 30 32, sentence_unit 70 80 32 34, sentence_unit 80 90 34 36]"

definition example_embeddings :: tensor where
  "example_embeddings = [[1], [- 1], [1], [- 1], [1], [- 1], [1], [- 1], [- 1]]"

text \<open>
  The clips that one round builds from the worked transcript at window sizes 5 and 7, the
  single clip it builds at the larger window sizes, and the clips \<^verbatim>\<open>find_clips\<close> accepts.
\<close>

definition example_groups :: "clip list" where
  "example_groups =
     [\<lparr>start_char = 0, end_char = 40, start_time = 0, end_time = 26, clip_norm = 1\<rparr>,
      \<lparr>start_char = 30, end_char = 60, start_time = 24, end_time = 30, clip_norm = 1\<rparr>,
      \<lparr>start_char = 50, end_char = 90, start_time = 28, end_time = 36, clip_norm = 1\<rparr>]"

definition example_whole :: clip where
  "example_whole = \<lparr>start_char = 0, end_char = 90, start_time = 0, end_time = 36, clip_norm = 1\<rparr>"

definition example_accepted :: "clip list" where
  "example_accepted =
     [\<lparr>start_char = 0, end_char = 90, start_time = 0, end_time = 36, clip_norm = 1\<rparr>,
      \<lparr>start_char = 30, end_char = 60, start_time = 24, end_time = 30, clip_norm = 1\<rparr>,
      \<lparr>start_char = 50, end_char = 90, start_time = 28, end_time = 36, clip_norm = 1\<rparr>]"

text \<open>The segments \<^verbatim>\<open>find_clips\<close> returns on the worked transcript.\<close>

definition example_segments :: "media_segment list" where
  "example_segments =
     [\<lparr>begin_sec = 0, finish_sec = 36, text_start_idx = 0, text_end_idx = 90\<rparr>,
      \<lparr>begin_sec = 24, finish_sec = 30, text_start_idx = 30, text_end_idx = 60\<rparr>,
      \<lparr>begin_sec = 28, finish_sec = 36, text_start_idx = 50, text_end_idx = 90\<rparr>]"

section \<open>Notions used in the statements\<close>

text \<open>The number of set flags of a flag sequence.\<close>

definition set_flags :: "real list \<Rightarrow> nat" where
  "set_flags b = length (filter (\<lambda>f. f = 1) b)"

text \<open>
  Two segments are near-duplicates when their begin times and their finish times differ
  by less than 15 seconds in sum. A list of batches of segments is accepted in rounds
  after the segments \<open>earlier\<close> when no segment of a batch is a near-duplicate of one in
  \<open>earlier\<close> or in a batch before its own.
\<close>

definition near_duplicate :: "media_segment \<Rightarrow> media_segment \<Rightarrow> bool" where
  "near_duplicate a b = (\<bar>begin_sec a - begin_sec b\<bar> + \<bar>finish_sec a - finish_sec b\<bar> < 15)"

text \<open>A segment lasts at least \<open>mn\<close> and at most \<open>mx\<close> seconds.\<close>

definition within_durations :: "real \<Rightarrow> real \<Rightarrow> media_segment \<Rightarrow> bool" where
  "within_durations mn mx s = (mn \<le> finish_sec s - begin_sec s \<and> finish_sec s - begin_sec s \<le> mx)"

fun accepted_in_rounds :: "media_segment list \<Rightarrow> media_segment list list \<Rightarrow> bool" where
  "accepted_in_rounds earlier [] = True"
| "accepted_in_rounds earlier (batch # later) =
     ((\<forall>s \<in> set batch. \<forall>r \<in> set earlier. \<not> near_duplicate s r) \<and>
      accepted_in_rounds (earlier @ batch) later)"

section \<open>Smoothing: lengths\<close>

lemma length_slice_fwd:
  "length (slice_fwd xs a b) =
     min (adjust_fwd (int (length xs)) b - adjust_fwd (int (length xs)) a)
         (length xs - adjust_fwd (int (length xs)) a)"
  by (simp add: slice_fwd_def Let_def)

lemma length_slice_rev:
  "length (slice_rev xs a b) =
     min (nat (adjust_rev (int (length xs)) a - adjust_rev (int (length xs)) b))
         (length xs - nat (adjust_rev (int (length xs)) b + 1))"
  by (simp add: slice_rev_def Let_def)

lemma length_convolve_full: "length (convolve_full a v) = length a + length v - 1"
  by (simp add: convolve_full_def)

lemma same_window_fits:
  "0 < a \<Longrightarrow> 0 < v \<Longrightarrow> max a v \<le> a + v - 1 - (min a v - 1) div 2" for a v :: nat
  by (cases "a \<le> v") (simp_all add: max_def min_def; linarith)+

lemma convolve_same_length:
  assumes "a \<noteq> []" "v \<noteq> []"
  shows "\<exists>y. convolve_same a v = Inr y \<and> length y = max (length a) (length v)"
proof -
  have "length a > 0" "length v > 0" using assms by auto
  then have "max (length a) (length v)
      \<le> length a + length v - 1 - (min (length a) (length v) - 1) div 2"
    by (rule same_window_fits)
  then show ?thesis using assms
    by (simp add: convolve_same_def length_convolve_full)
qed

text \<open>
  A sequence strictly longer than the window keeps its length: both paddings have
  \<open>window_len - 1\<close> entries, and the final slice removes as many on each side.
\<close>

lemma smooth_length:
  assumes "3 \<le> w" "w < int (length x)"
  shows "\<exists>y. smooth x w = Inr y \<and> length y = length x"
proof -
  have l1: "length (slice_rev x w 1) = nat w - 1"
    using assms by (simp add: length_slice_rev adjust_rev_def)
  have l2: "length (slice_rev x (- 1) (- w)) = nat w - 1"
    using assms by (auto simp add: length_slice_rev adjust_rev_def)
  define s where "s = map (\<lambda>v. 2 * hd x - v) (slice_rev x w 1) @ x @
                map (\<lambda>v. 2 * last x - v) (slice_rev x (- 1) (- w))"
  define wv where "wv = replicate (nat w) (1::real)"
  have ls: "length s = length x + 2 * (nat w - 1)" by (simp add: s_def l1 l2)
  have "x \<noteq> []" using assms by auto
  then have "s \<noteq> []" by (simp add: s_def)
  moreover have "map (\<lambda>c. c / sum_list wv) wv \<noteq> []" using assms by (simp add: wv_def)
  ultimately obtain y where y: "convolve_same (map (\<lambda>c. c / sum_list wv) wv) s = Inr y"
     "length y = max (length (map (\<lambda>c. c / sum_list wv) wv)) (length s)"
    using convolve_same_length by blast
  have ly: "length y = length s" using y(2) ls assms by (simp add: wv_def)
  have "length (slice_fwd y (w - 1) (- w + 1)) = length x"
    using assms ls ly by (simp add: length_slice_fwd adjust_fwd_def) linarith
  moreover have "smooth x w = Inr (slice_fwd y (w - 1) (- w + 1))"
    using assms y(1) by (simp add: smooth_def Let_def s_def[symmetric] wv_def[symmetric])
  ultimately show ?thesis by simp
qed

text \<open>
  A sequence exactly as long as the window loses one entry: \<^verbatim>\<open>x[window_len:1:-1]\<close> then
  has only \<open>window_len - 2\<close> entries.
\<close>

lemma smooth_equal_length:
  assumes "3 \<le> w" "w = int (length x)"
  shows "\<exists>y. smooth x w = Inr y \<and> length y + 1 = length x"
proof -
  have l1: "length (slice_rev x w 1) = nat w - 2"
    using assms by (simp add: length_slice_rev adjust_rev_def)
  have l2: "length (slice_rev x (- 1) (- w)) = nat w - 1"
    using assms by (auto simp add: length_slice_rev adjust_rev_def)
  define s where "s = map (\<lambda>v. 2 * hd x - v) (slice_rev x w 1) @ x @
                map (\<lambda>v. 2 * last x - v) (slice_rev x (- 1) (- w))"
  define wv where "wv = replicate (nat w) (1::real)"
  have ls: "length s = length x + (nat w - 1) + (nat w - 2)" by (simp add: s_def l1 l2)
  have nonempty: "x \<noteq> []" using assms by (cases x) auto
  then have "s \<noteq> []" by (simp add: s_def)
  moreover have "map (\<lambda>c. c / sum_list wv) wv \<noteq> []" using assms by (auto simp add: wv_def)
  ultimately obtain y where y: "convolve_same (map (\<lambda>c. c / sum_list wv) wv) s = Inr y"
     "length y = max (length (map (\<lambda>c. c / sum_list wv) wv)) (length s)"
    using convolve_same_length by blast
  have ly: "length y = length s" using y(2) ls assms by (simp add: wv_def)
  have "length (slice_fwd y (w - 1) (- w + 1)) + 1 = length x"
    using assms ls ly nonempty by (simp add: length_slice_fwd adjust_fwd_def)
  moreover have "\<not> int (length x) < w" "\<not> w < 3" using assms by simp_all
  then have "smooth x w = Inr (slice_fwd y (w - 1) (- w + 1))"
    using y(1) by (simp add: smooth_def Let_def s_def[symmetric] wv_def[symmetric])
  ultimately show ?thesis by simp
qed

lemma smooth_noop: "w < 3 \<Longrightarrow> w \<le> int (length x) \<Longrightarrow> smooth x w = Inr x"
  by (simp add: smooth_def)

lemma smooth_short: "int (length x) < w \<Longrightarrow> smooth x w = Inl ValueError"
  by (simp add: smooth_def)

text \<open>
  Claim C9, as the code has it. The smoothing step returns a sequence of the length of
  its input when the input is strictly longer than a window width of at least 3; for a
  width below 3 it returns the input unchanged when the input has at least that many
  entries; and an input shorter than the width raises \<^verbatim>\<open>ValueError\<close>, whatever the
  width.
\<close>

theorem smooth_scores_length_and_noop:
  "(3 \<le> w \<and> w < int (length x) \<longrightarrow> (\<exists>y. smooth_scores x w = Inr y \<and> length y = length x)) \<and>
   (w < 3 \<and> w \<le> int (length x) \<longrightarrow> smooth_scores x w = Inr x) \<and>
   (int (length x) < w \<longrightarrow> smooth_scores x w = Inl ValueError)"
  unfolding smooth_scores_def
  using smooth_length[of w x] smooth_noop[of w x] smooth_short[of x w] by blast

theorem smooth_scores_length_and_noop_witness:
  "(\<exists>y. smooth_scores [1, 0, 1, 0] 3 = Inr y \<and> length y = length [1, 0, 1, 0 :: real]) \<and>
   smooth_scores [1, 0] 2 = Inr [1, 0] \<and>
   smooth_scores [1] 2 = Inl ValueError"
  using smooth_scores_length_and_noop[of 3 "[1, 0, 1, 0]"]
        smooth_scores_length_and_noop[of 2 "[1, 0]"]
        smooth_scores_length_and_noop[of 2 "[1]"]
  by simp

text \<open>
  Claim C9 as stated fails: a one-element sequence smoothed with width 2 is not returned
  unchanged but raises, and a three-element sequence smoothed with width 3 comes back
  with two elements.
\<close>

theorem smooth_scores_counterexample:
  "smooth_scores [1] 2 = Inl ValueError \<and> smooth_scores [1, 2, 3] 3 = Inr [2, 8 / 3]"
  by code_simp

section \<open>Truth value of a segment\<close>

text \<open>
  Claim C10. The truth value of a segment is the conjunction of the truth values of its
  four fields, so a segment is true exactly when all four are non-zero; a segment that
  begins at time 0 or at character 0 is false, and so is the whole-transcript seed
  segment whenever \<^verbatim>\<open>find_clips\<close> creates it.
\<close>

theorem segment_bool_all_nonzero:
  "(segment_bool s \<longleftrightarrow>
      begin_sec s \<noteq> 0 \<and> finish_sec s \<noteq> 0 \<and> text_start_idx s \<noteq> 0 \<and> text_end_idx s \<noteq> 0) \<and>
   (begin_sec s = 0 \<or> text_start_idx s = 0 \<longrightarrow> \<not> segment_bool s) \<and>
   (\<forall>c \<in> set (seed_clips cf t n). \<not> segment_bool (to_segment c))"
  by (auto simp add: segment_bool_def seed_clips_def to_segment_def)

theorem segment_bool_all_nonzero_witness:
  "segment_bool \<lparr>begin_sec = 24, finish_sec = 30, text_start_idx = 30, text_end_idx = 60\<rparr> \<and>
   \<not> segment_bool \<lparr>begin_sec = 0, finish_sec = 26, text_start_idx = 0, text_end_idx = 40\<rparr> \<and>
   seed_clips example_cf 36 90 \<noteq> [] \<and>
   \<not> segment_bool (to_segment (hd (seed_clips example_cf 36 90)))"
  using segment_bool_all_nonzero[of "\<lparr>begin_sec = 24, finish_sec = 30, text_start_idx = 30, text_end_idx = 60\<rparr>" example_cf 36 90]
        segment_bool_all_nonzero[of "\<lparr>begin_sec = 0, finish_sec = 26, text_start_idx = 0, text_end_idx = 40\<rparr>" example_cf 36 90]
  by (simp add: seed_clips_def example_cf_def)

section \<open>Shape mismatch\<close>

text \<open>
  Claim C8. A round whose embedding sequence and clip sequence differ in length raises
  \<^verbatim>\<open>ClipFinderError\<close>, whatever the boundary detector would have done with the
  embeddings; the error ends the loop over the rounds and the whole call of
  \<^verbatim>\<open>find_clips\<close>, neither of which catches it.
\<close>

theorem shape_mismatch_is_fatal:
  assumes "length clip_embeddings \<noteq> length clips"
  shows "cf_text_tile cf clips clip_embeddings k = Inl ClipFinderError \<and>
         (8 < length clip_embeddings \<longrightarrow>
            text_tile_multiple_rounds cf clips clip_embeddings k min_dur max_dur final_clips
              = Some (Inl ClipFinderError) \<and>
            find_clips cf clips clip_embeddings t n = Some (Inl ClipFinderError))"
proof -
  have round: "cf_text_tile cf clips clip_embeddings k' = Inl ClipFinderError" for k'
    using assms by (simp add: cf_text_tile_def)
  have loop: "text_tile_multiple_rounds cf clips clip_embeddings k' mn mx fin
      = Some (Inl ClipFinderError)" if "8 < length clip_embeddings" for k' mn mx fin
    by (subst text_tile_multiple_rounds.simps) (simp add: that round)
  have "find_clips cf clips clip_embeddings t n = Some (Inl ClipFinderError)"
    if "8 < length clip_embeddings"
    by (simp add: find_clips_def schedule_def loop[OF that])
  with round loop show ?thesis by blast
qed

theorem shape_mismatch_is_fatal_witness:
  "cf_text_tile example_cf (butlast example_units) example_embeddings 5 = Inl ClipFinderError \<and>
   text_tile_multiple_rounds example_cf (butlast example_units) example_embeddings 5 4 900 []
     = Some (Inl ClipFinderError) \<and>
   find_clips example_cf (butlast example_units) example_embeddings 36 90
     = Some (Inl ClipFinderError)"
  using shape_mismatch_is_fatal[of example_embeddings "butlast example_units" example_cf 5 4 900 "[]" 36 90]
  by (simp add: example_units_def example_embeddings_def)

section \<open>Flags, groups and rounds: shapes\<close>

lemma identify_boundaries_eq:
  "identify_boundaries depths policy =
     (case cutoff_of policy (mean_list depths) (torch_std depths) of
        None \<Rightarrow> Inl TextTilerError
      | Some cutoff \<Rightarrow>
          Inr (map (\<lambda>i. if is_peak depths cutoff (int i) then 1 else 0) [0..<length depths] @ [1]))"
  by (simp add: identify_boundaries_def Let_def list_update_append split: option.splits)

lemma is_peak_first: "\<not> is_peak depths cutoff 0"
  by (simp add: is_peak_def)

lemma is_peak_last: "depths \<noteq> [] \<Longrightarrow> \<not> is_peak depths cutoff (int (length depths) - 1)"
  by (simp add: is_peak_def)

lemma peaks_count:
  "length (filter (\<lambda>f. f = (1::real)) (map (\<lambda>i. if is_peak depths cutoff (int i) then 1 else 0) [0..<M])) \<le> M - 1"
proof (cases M)
  case 0
  then show ?thesis by simp
next
  case (Suc m)
  have "[0..<Suc m] = 0 # [1..<Suc m]" by (simp add: upt_rec)
  then have "length (filter (\<lambda>f. f = (1::real)) (map (\<lambda>i. if is_peak depths cutoff (int i) then 1 else 0) [0..<Suc m]))
     = length (filter (\<lambda>f. f = (1::real)) (map (\<lambda>i. if is_peak depths cutoff (int i) then 1 else 0) [1..<Suc m]))"
    by (simp add: is_peak_first)
  also have "\<dots> \<le> length (map (\<lambda>i. if is_peak depths cutoff (int i) then 1 else (0::real)) [1..<Suc m])"
    by (rule length_filter_le)
  finally show ?thesis using Suc by (simp del: upt_Suc)
qed

lemma identify_boundaries_shape:
  assumes "identify_boundaries depths policy = Inr b"
  shows "length b = length depths + 1" "last b = 1" "1 \<le> set_flags b" "set_flags b \<le> length depths - 1 + 1"
proof -
  obtain cutoff where b: "b = map (\<lambda>i. if is_peak depths cutoff (int i) then 1 else 0) [0..<length depths] @ [1]"
    using assms by (auto simp add: identify_boundaries_eq split: option.splits)
  show "length b = length depths + 1" "last b = 1" by (simp_all add: b)
  show "1 \<le> set_flags b" by (simp add: b set_flags_def)
  show "set_flags b \<le> length depths - 1 + 1"
    using peaks_count[of depths cutoff "length depths"] by (simp add: b set_flags_def)
qed

lemma identify_boundaries_valid:
  "check_valid_cutoff_policy policy \<Longrightarrow> \<exists>b. identify_boundaries depths policy = Inr b"
  by (auto simp add: identify_boundaries_eq check_valid_cutoff_policy_def cutoff_of_def)

lemma pool_loop_length:
  "pool_loop pool b es i grp pooled = Inr r \<Longrightarrow> i \<le> length b \<Longrightarrow>
     length r = length pooled + set_flags (take (length es) (drop i b)) \<and> i + length es \<le> length b"
proof (induction es arbitrary: i grp pooled)
  case Nil
  then show ?case by (simp add: set_flags_def)
next
  case (Cons e es)
  from Cons.prems have i: "i < length b" by (auto split: if_splits)
  then have d: "drop i b = b ! i # drop (Suc i) b" by (simp add: Cons_nth_drop_Suc)
  show ?case
  proof (cases "b ! i = 1")
    case True
    with Cons.prems i have "pool_loop pool b es (Suc i) [] (pooled @ [pool (grp @ [e])]) = Inr r" by simp
    from Cons.IH[OF this] show ?thesis using True d i by (simp add: set_flags_def)
  next
    case False
    with Cons.prems i have "pool_loop pool b es (Suc i) (grp @ [e]) pooled = Inr r" by simp
    from Cons.IH[OF this] show ?thesis using False d i by (simp add: set_flags_def)
  qed
qed

lemma pool_loop_succeeds:
  "i + length es \<le> length b \<Longrightarrow> \<exists>r. pool_loop pool b es i grp pooled = Inr r"
  by (induction es arbitrary: i grp pooled) auto

lemma pool_loop_fails:
  "length b < i + length es \<Longrightarrow> i \<le> length b \<Longrightarrow> pool_loop pool b es i grp pooled = Inl IndexError"
  by (induction es arbitrary: i grp pooled) auto

lemma super_loop_length:
  "super_loop clips b ne idxs start_idx super_idx acc = Inr sc \<Longrightarrow>
     length sc = length acc + length (filter (\<lambda>i. b ! i = 1) idxs)"
  by (induction idxs arbitrary: start_idx super_idx acc) (auto split: if_splits simp: Let_def)

lemma super_loop_succeeds:
  "\<forall>i \<in> set idxs. i < length b \<Longrightarrow> super_idx + length (filter (\<lambda>i. b ! i = 1) idxs) \<le> length ne \<Longrightarrow>
     \<exists>sc. super_loop clips b ne idxs start_idx super_idx acc = Inr sc"
  by (induction idxs arbitrary: start_idx super_idx acc) (auto simp: Let_def)

lemma flags_by_index: "length (filter (\<lambda>i. b ! i = (1::real)) [0..<length b]) = set_flags b"
proof -
  have "filter (\<lambda>f. f = 1) (map ((!) b) [0..<length b]) = map ((!) b) (filter (\<lambda>i. b ! i = 1) [0..<length b])"
    by (simp add: filter_map comp_def)
  then show ?thesis unfolding set_flags_def by (metis length_map map_nth)
qed


lemma smooth_length_le: "smooth x w = Inr y \<Longrightarrow> length y \<le> length x"
proof -
  assume a: "smooth x w = Inr y"
  consider "int (length x) < w" | "w < 3" "w \<le> int (length x)" | "3 \<le> w" "w < int (length x)"
    | "3 \<le> w" "w = int (length x)" by linarith
  then show ?thesis
  proof cases
    case 1 then show ?thesis using a smooth_short[of x w] by simp
  next
    case 2 then show ?thesis using a smooth_noop[of w x] by simp
  next
    case 3 then show ?thesis using a smooth_length[of w x] by auto
  next
    case 4 then show ?thesis using a smooth_equal_length[of w x] by auto
  qed
qed

lemma calc_gap_scores_length:
  "calc_gap_scores emb k pm = Inr g \<Longrightarrow> length g = length emb - 1 \<and> emb \<noteq> []"
  by (auto simp add: calc_gap_scores_def Let_def split: sum.splits if_splits)

lemma calc_gap_scores_succeeds:
  "check_valid_pool_method pm \<Longrightarrow> emb \<noteq> [] \<Longrightarrow> \<exists>g. calc_gap_scores emb k pm = Inr g"
  by (auto simp add: calc_gap_scores_def Let_def check_valid_pool_method_def get_pool_method_def)

lemma length_calc_depth_scores: "length (calc_depth_scores g) = length g"
  by (simp add: calc_depth_scores_def Let_def)

lemma pool_embedding_groups_length:
  assumes "pool_embedding_groups emb b pm = Inr p"
  shows "length emb \<le> length b" "length p = set_flags (take (length emb) b)" "p \<noteq> []"
proof -
  from assms obtain pool where "pool_loop pool b emb 0 [] [] = Inr p" and ne: "p \<noteq> []"
    by (auto simp add: pool_embedding_groups_def split: sum.splits if_splits)
  from pool_loop_length[OF this(1)] show "length emb \<le> length b"
    "length p = set_flags (take (length emb) b)" by simp_all
  show "p \<noteq> []" by (rule ne)
qed

lemma pool_embedding_groups_succeeds:
  assumes "check_valid_pool_method pm" "length emb \<le> length b" "1 \<le> set_flags (take (length emb) b)"
  shows "\<exists>p. pool_embedding_groups emb b pm = Inr p"
proof -
  from assms(1) obtain pool where pm: "get_pool_method pm = Inr pool"
    by (auto simp add: check_valid_pool_method_def get_pool_method_def)
  from assms(2) obtain r where r: "pool_loop pool b emb 0 [] [] = Inr r"
    using pool_loop_succeeds[of 0 emb b pool "[]" "[]"] by auto
  from pool_loop_length[OF r] assms(3) have "r \<noteq> []" by auto
  with pm r show ?thesis by (simp add: pool_embedding_groups_def)
qed

lemma text_tile_shape:
  assumes "text_tile emb k wp ap sw cp = Inr (b, p)"
  shows "length b = length emb \<and> last b = 1 \<and> length p = set_flags b \<and> 1 \<le> length p \<and>
         (2 \<le> length emb \<longrightarrow> length p < length emb)"
proof -
  define k' where "k' = (if k \<ge> int (length emb) then max (int (length emb) div 5) 2 else k)"
  define sw' where "sw' = (if sw \<ge> int (length emb) then 2 else sw)"
  from assms obtain g s where
    g: "calc_gap_scores emb k' wp = Inr g" and
    s: "smooth_scores g sw' = Inr s" and
    b: "identify_boundaries (calc_depth_scores s) cp = Inr b" and
    p: "pool_embedding_groups emb b ap = Inr p"
    by (auto simp add: text_tile_def Let_def k'_def sw'_def split: sum.splits if_splits)
  have lg: "length g = length emb - 1" and ne: "emb \<noteq> []"
    using calc_gap_scores_length[OF g] by simp_all
  then have pos: "0 < length emb" by simp
  have ls: "length s \<le> length g" using s smooth_length_le by (simp add: smooth_scores_def)
  note sh = identify_boundaries_shape[OF b, unfolded length_calc_depth_scores]
  note pl = pool_embedding_groups_length[OF p]
  have lb: "length b = length emb" using lg ls sh(1) pl(1) pos by linarith
  then have lp: "length p = set_flags b" using pl(2) by simp
  have "length s = length emb - 1" using lb sh(1) by simp
  then have "2 \<le> length emb \<longrightarrow> set_flags b < length emb" using sh(4) by auto
  with lb lp sh(2,3) show ?thesis by simp
qed

lemma text_tile_succeeds:
  assumes valid: "check_valid_config k wp ap sw cp"
    and n: "3 \<le> length emb" and w: "sw + 1 \<noteq> int (length emb)"
  shows "\<exists>b p. text_tile emb k wp ap sw cp = Inr (b, p)"
proof -
  define k' where "k' = (if k \<ge> int (length emb) then max (int (length emb) div 5) 2 else k)"
  define sw' where "sw' = (if sw \<ge> int (length emb) then 2 else sw)"
  from valid have vwp: "check_valid_pool_method wp" and vap: "check_valid_pool_method ap"
    and vcp: "check_valid_cutoff_policy cp" and vsw: "3 \<le> sw"
    by (simp_all add: check_valid_config_def check_valid_smoothing_width_def)
  from n have "emb \<noteq> []" by auto
  with vwp obtain g where g: "calc_gap_scores emb k' wp = Inr g"
    using calc_gap_scores_succeeds by blast
  have lg: "length g = length emb - 1" using calc_gap_scores_length[OF g] by simp
  have "\<exists>s. smooth g sw' = Inr s \<and> length s = length g"
  proof (cases "sw \<ge> int (length emb)")
    case True
    then have "sw' = 2" by (simp add: sw'_def)
    then show ?thesis using smooth_noop[of sw' g] lg n by simp
  next
    case False
    then have "sw' = sw" by (simp add: sw'_def)
    moreover have "sw < int (length g)" using False w lg n by linarith
    ultimately show ?thesis using smooth_length[of sw' g] vsw by simp
  qed
  then obtain s where s: "smooth_scores g sw' = Inr s" and ls: "length s = length g"
    by (auto simp add: smooth_scores_def)
  from vcp obtain b where b: "identify_boundaries (calc_depth_scores s) cp = Inr b"
    using identify_boundaries_valid by blast
  note sh = identify_boundaries_shape[OF b, unfolded length_calc_depth_scores]
  have lb: "length b = length emb" using sh(1) ls lg n by simp
  then obtain p where p: "pool_embedding_groups emb b ap = Inr p"
    using pool_embedding_groups_succeeds[OF vap, of emb b] sh(3) by auto
  show ?thesis using valid g s b p
    by (simp add: text_tile_def Let_def k'_def[symmetric] sw'_def[symmetric])
qed

lemma cf_text_tile_shape:
  assumes "cf_text_tile cf clips emb k = Inr (sc, se)"
  shows "length sc = length se \<and> 1 \<le> length se \<and> (2 \<le> length emb \<longrightarrow> length se < length emb)"
proof -
  from assms have len: "length emb = length clips"
    by (auto simp add: cf_text_tile_def split: if_splits)
  from assms obtain b k' where
    tt: "text_tile emb k' (cf_window_compare_pool_method cf)
               (cf_embedding_aggregation_pool_method cf) (cf_smoothing_width cf)
               (cf_cutoff_policy cf) = Inr (b, se)" and
    sl: "super_loop clips b se [0..<length clips] 0 0 [] = Inr sc"
    by (auto simp add: cf_text_tile_def Let_def split: if_splits sum.splits prod.splits)
  note sh = text_tile_shape[OF tt]
  have "length sc = length (filter (\<lambda>i. b ! i = 1) [0..<length b])"
    using super_loop_length[OF sl] sh len by simp
  then have "length sc = set_flags b" by (simp add: flags_by_index)
  with sh show ?thesis by auto
qed

lemma text_tile_multiple_rounds_terminates:
  "\<exists>r. text_tile_multiple_rounds cf clips emb k mn mx fin = Some r"
proof (induction "length emb" arbitrary: clips emb fin rule: less_induct)
  case less
  show ?case
  proof (cases "8 < length emb")
    case False
    then show ?thesis by (subst text_tile_multiple_rounds.simps) simp
  next
    case True
    show ?thesis
    proof (cases "cf_text_tile cf clips emb k")
      case (Inl e)
      with True show ?thesis by (subst text_tile_multiple_rounds.simps) simp
    next
      case (Inr res)
      obtain sc se where res: "res = (sc, se)" by (cases res)
      with Inr have "length se < length emb" using cf_text_tile_shape[of cf clips emb k sc se] True by simp
      from less[OF this] obtain r where
        "text_tile_multiple_rounds cf sc se k mn mx (fin @ remove_duplicates sc fin mn mx) = Some r"
        by blast
      with True Inr res show ?thesis by (subst text_tile_multiple_rounds.simps) simp
    qed
  qed
qed

section \<open>The worked transcript, evaluated\<close>

lemma l2norm_single: "l2norm [a] = \<bar>a\<bar>"
  by (simp add: l2norm_def dot_def)

lemma cosine_similarity_single:
  "cosine_similarity [a] [b] = a * b / (max \<bar>a\<bar> cosine_eps * max \<bar>b\<bar> cosine_eps)"
  by (simp add: cosine_similarity_def l2norm_single) (simp add: dot_def)

lemma upt_0_8: "[0..<8] = [0, 1, 2, 3, 4, 5, 6, 7]"
  by code_simp

lemma upt_0_9: "[0..<9] = [0, 1, 2, 3, 4, 5, 6, 7, 8]"
  by code_simp

lemmas gap_eval = upt_0_8 calc_gap_scores_def get_pool_method_def slice_fwd_def adjust_fwd_def
  torch_mean_def columns_def mean_list_def cosine_similarity_single cosine_eps_def Let_def

lemma example_gap_5:
  "calc_gap_scores example_embeddings 5 ''mean'' = Inr [- 1, 0, - 1, 0, - 1, 1, - 1, 1]"
  unfolding example_embeddings_def by (simp add: gap_eval)

lemma example_gap_7:
  "calc_gap_scores example_embeddings 7 ''mean'' = Inr [- 1, 0, - 1, 0, - 1, 0, - 1, 1]"
  unfolding example_embeddings_def by (simp add: gap_eval)

lemma example_gap_2:
  "calc_gap_scores example_embeddings 2 ''mean'' = Inr [0, 0, 0, 0, 0, 0, 0, 0]"
  unfolding example_embeddings_def by (simp add: gap_eval)

lemma example_smooth_5:
  "smooth_scores [- 1, 0, - 1, 0, - 1, 1, - 1, 1] 3
     = Inr [- (2 / 3), - (2 / 3), - (1 / 3), - (2 / 3), 0, - (1 / 3), 1 / 3, 1 / 3]"
  by code_simp

lemma example_smooth_7:
  "smooth_scores [- 1, 0, - 1, 0, - 1, 0, - 1, 1] 3
     = Inr [- (2 / 3), - (2 / 3), - (1 / 3), - (2 / 3), - (1 / 3), - (2 / 3), 0, 1 / 3]"
  by code_simp

lemma example_smooth_2:
  "smooth_scores [0, 0, 0, 0, 0, 0, 0, 0] 3 = Inr [0, 0, 0, 0, 0, 0, 0, 0]"
  by code_simp

lemma example_depth_5:
  "calc_depth_scores [- (2 / 3), - (2 / 3), - (1 / 3), - (2 / 3), 0, - (1 / 3), 1 / 3, 1 / 3]
     = [1, 1, 2 / 3, 4 / 3, 1 / 3, 1, 0, 0]"
  by code_simp

lemma example_depth_7:
  "calc_depth_scores [- (2 / 3), - (2 / 3), - (1 / 3), - (2 / 3), - (1 / 3), - (2 / 3), 0, 1 / 3]
     = [1, 1, 2 / 3, 4 / 3, 2 / 3, 4 / 3, 1 / 3, 0]"
  by code_simp

lemma example_depth_2:
  "calc_depth_scores [0, 0, 0, 0, 0, 0, 0, 0] = [0, 0, 0, 0, 0, 0, 0, 0]"
  by code_simp

lemmas flag_eval = identify_boundaries_def cutoff_of_def is_peak_def mean_list_def

lemma example_flags_5:
  "identify_boundaries [1, 1, 2 / 3, 4 / 3, 1 / 3, 1, 0, 0] ''average''
     = Inr [0, 0, 0, 1, 0, 1, 0, 0, 1]"
  by (simp add: flag_eval)

lemma example_flags_7:
  "identify_boundaries [1, 1, 2 / 3, 4 / 3, 2 / 3, 4 / 3, 1 / 3, 0] ''average''
     = Inr [0, 0, 0, 1, 0, 1, 0, 0, 1]"
  by (simp add: flag_eval)

lemma example_flags_2:
  "identify_boundaries [0, 0, 0, 0, 0, 0, 0, 0] ''average'' = Inr [0, 0, 0, 0, 0, 0, 0, 0, 1]"
  by (simp add: flag_eval)

lemma example_pool_5:
  "pool_embedding_groups example_embeddings [0, 0, 0, 1, 0, 1, 0, 0, 1] ''max''
     = Inr [[1], [1], [1]]"
  unfolding example_embeddings_def by code_simp

lemma example_pool_2:
  "pool_embedding_groups example_embeddings [0, 0, 0, 0, 0, 0, 0, 0, 1] ''max'' = Inr [[1]]"
  unfolding example_embeddings_def by code_simp

lemma example_valid: "check_valid_config k ''mean'' ''max'' 3 ''average'' = (2 \<le> k)"
  by (auto simp add: check_valid_config_def check_valid_cutoff_policy_def check_valid_pool_method_def
      check_valid_k_def check_valid_smoothing_width_def)

lemma example_length: "length example_embeddings = 9"
  by (simp add: example_embeddings_def)

lemma example_text_tile_5:
  "text_tile example_embeddings 5 ''mean'' ''max'' 3 ''average''
     = Inr ([0, 0, 0, 1, 0, 1, 0, 0, 1], [[1], [1], [1]])"
  by (simp add: text_tile_def example_valid example_length example_gap_5 example_smooth_5
      example_depth_5 example_flags_5 example_pool_5)

lemma example_text_tile_7:
  "text_tile example_embeddings 7 ''mean'' ''max'' 3 ''average''
     = Inr ([0, 0, 0, 1, 0, 1, 0, 0, 1], [[1], [1], [1]])"
  by (simp add: text_tile_def example_valid example_length example_gap_7 example_smooth_7
      example_depth_7 example_flags_7 example_pool_5)

lemma example_text_tile_9:
  "text_tile example_embeddings 9 ''mean'' ''max'' 3 ''average''
     = Inr ([0, 0, 0, 0, 0, 0, 0, 0, 1], [[1]])"
  by (simp add: text_tile_def example_valid example_length example_gap_2 example_smooth_2
      example_depth_2 example_flags_2 example_pool_2)

lemma example_super_loop:
  "super_loop example_units [0, 0, 0, 1, 0, 1, 0, 0, 1] [[1], [1], [1]] [0..<9] 0 0 []
     = Inr example_groups"
  by (simp add: upt_0_9 example_units_def sentence_unit_def l2norm_single example_groups_def)

lemma example_cf_text_tile_5:
  "cf_text_tile example_cf example_units example_embeddings 5 = Inr (example_groups, [[1], [1], [1]])"
  using example_text_tile_5 example_super_loop
  by (simp add: cf_text_tile_def example_cf_def example_length) (simp add: example_units_def)


lemma example_cf_text_tile_7:
  "cf_text_tile example_cf example_units example_embeddings 7 = Inr (example_groups, [[1], [1], [1]])"
  using example_text_tile_7 example_super_loop
  by (simp add: cf_text_tile_def example_cf_def example_length) (simp add: example_units_def)

lemma example_super_loop_whole:
  "super_loop example_units [0, 0, 0, 0, 0, 0, 0, 0, 1] [[1]] [0..<9] 0 0 [] = Inr [example_whole]"
  by (simp add: upt_0_9 example_units_def sentence_unit_def l2norm_single example_whole_def)

lemma example_cf_text_tile_wide:
  "9 \<le> k \<Longrightarrow> cf_text_tile example_cf example_units example_embeddings k = Inr ([example_whole], [[1]])"
  using example_text_tile_9 example_super_loop_whole
  by (simp add: cf_text_tile_def example_cf_def example_length) (simp add: example_units_def)

lemma example_rounds_stop:
  "text_tile_multiple_rounds cf clips [[1], [1], [1]] k mn mx fin = Some (Inr fin)"
  "text_tile_multiple_rounds cf clips [[1]] k mn mx fin = Some (Inr fin)"
  by (subst text_tile_multiple_rounds.simps, simp)+

lemma example_rounds_5:
  "text_tile_multiple_rounds example_cf example_units example_embeddings 5 mn mx fin
     = Some (Inr (fin @ remove_duplicates example_groups fin mn mx))"
  by (subst text_tile_multiple_rounds.simps)
     (simp add: example_length example_cf_text_tile_5 example_rounds_stop)

lemma example_rounds_7:
  "text_tile_multiple_rounds example_cf example_units example_embeddings 7 mn mx fin
     = Some (Inr (fin @ remove_duplicates example_groups fin mn mx))"
  by (subst text_tile_multiple_rounds.simps)
     (simp add: example_length example_cf_text_tile_7 example_rounds_stop)

lemma example_rounds_wide:
  "9 \<le> k \<Longrightarrow> text_tile_multiple_rounds example_cf example_units example_embeddings k mn mx fin
     = Some (Inr (fin @ remove_duplicates [example_whole] fin mn mx))"
  by (subst text_tile_multiple_rounds.simps)
     (simp add: example_length example_cf_text_tile_wide example_rounds_stop)

lemma example_seed: "seed_clips example_cf 36 90 = [example_whole]"
  by (simp add: seed_clips_def example_cf_def example_whole_def)

lemma example_tier_1:
  "remove_duplicates example_groups [example_whole] 4 900 = tl example_accepted"
  by (simp add: example_groups_def example_whole_def example_accepted_def)

lemma example_tier_1_again:
  "remove_duplicates example_groups example_accepted 4 900 = []"
  by (simp add: example_groups_def example_accepted_def)

lemma example_too_short:
  "180 \<le> mn \<Longrightarrow> remove_duplicates [example_whole] example_accepted mn 900 = []"
  by (simp add: example_whole_def)

lemma example_schedule:
  "schedule example_cf =
     [(5, 4), (7, 4), (11, 180), (17, 180), (37, 600), (53, 600), (73, 600), (97, 600)]"
  by (simp add: schedule_def example_cf_def)

lemma example_max: "cf_max_clip_duration example_cf = 900"
  by (simp add: example_cf_def)

lemma example_run:
  "run_schedule example_cf example_units example_embeddings (schedule example_cf) [example_whole]
     = Some (Inr example_accepted)"
proof -
  have first: "example_whole # tl example_accepted = example_accepted"
    by (simp add: example_accepted_def example_whole_def)
  have s1: "text_tile_multiple_rounds example_cf example_units example_embeddings 5 4 900
      [example_whole] = Some (Inr example_accepted)"
    by (simp add: example_rounds_5 example_tier_1 first)
  have s2: "text_tile_multiple_rounds example_cf example_units example_embeddings 7 4 900
      example_accepted = Some (Inr example_accepted)"
    by (simp add: example_rounds_7 example_tier_1_again)
  have s3: "text_tile_multiple_rounds example_cf example_units example_embeddings k mn 900
      example_accepted = Some (Inr example_accepted)" if "9 \<le> k" "180 \<le> mn" for k mn
    using that by (simp add: example_rounds_wide example_too_short del: remove_duplicates.simps)
  show ?thesis
    by (simp add: example_schedule example_max s1 s2 s3)
qed

lemma example_find_clips:
  "find_clips example_cf example_units example_embeddings 36 90 =
     Some (Inr [\<lparr>begin_sec = 0, finish_sec = 36, text_start_idx = 0, text_end_idx = 90\<rparr>,
                \<lparr>begin_sec = 24, finish_sec = 30, text_start_idx = 30, text_end_idx = 60\<rparr>,
                \<lparr>begin_sec = 28, finish_sec = 36, text_start_idx = 50, text_end_idx = 90\<rparr>])"
  by (simp add: find_clips_def example_seed example_run) (simp add: example_accepted_def to_segment_def)

section \<open>Boundary selection\<close>

text \<open>
  Claim C3, as the code has it. On a depth sequence \<open>D\<close> of length \<open>M\<close> the cutoff is the
  mean for \<^verbatim>\<open>average\<close>, the mean plus the population standard deviation for \<^verbatim>\<open>high\<close>
  and the mean minus it for \<^verbatim>\<open>low\<close>; position \<open>i < M\<close> is flagged exactly when \<open>D[i]\<close>
  exceeds the cutoff, \<open>D[max(0, i - 1)]\<close> and \<open>D[min(i + 1, M - 1)]\<close>. At an edge one of
  these comparisons is of \<open>D[i]\<close> with itself and is strict, so the positions \<open>0\<close> and
  \<open>M - 1\<close> are never flagged.
\<close>

theorem boundary_selection:
  assumes "identify_boundaries D policy = Inr flags"
  shows "\<exists>cutoff.
          (policy = ''average'' \<and> cutoff = mean_list D \<or>
           policy = ''high'' \<and> cutoff = mean_list D + torch_std D \<or>
           policy = ''low'' \<and> cutoff = mean_list D - torch_std D) \<and>
          (\<forall>i < length D. flags ! i = 1 \<longleftrightarrow>
             D ! i > cutoff \<and> D ! i > D ! (if i = 0 then 0 else i - 1) \<and>
             D ! i > D ! (min (i + 1) (length D - 1))) \<and>
          (D \<noteq> [] \<longrightarrow> flags ! 0 \<noteq> 1 \<and> flags ! (length D - 1) \<noteq> 1)"
proof -
  from assms obtain cutoff where
    c: "cutoff_of policy (mean_list D) (torch_std D) = Some cutoff" and
    f: "flags = map (\<lambda>i. if is_peak D cutoff (int i) then 1 else 0) [0..<length D] @ [1]"
    by (auto simp add: identify_boundaries_eq split: option.splits)
  have nth: "flags ! i = (if is_peak D cutoff (int i) then 1 else 0)" if "i < length D" for i
    using that by (simp add: f nth_append)
  have peak: "is_peak D cutoff (int i) \<longleftrightarrow>
             D ! i > cutoff \<and> D ! i > D ! (if i = 0 then 0 else i - 1) \<and>
             D ! i > D ! (min (i + 1) (length D - 1))" if "i < length D" for i
  proof -
    have "nat (max 0 (int i - 1)) = (if i = 0 then 0 else i - 1)" by auto
    moreover have "nat (min (int i + 1) (int (length D) - 1)) = min (i + 1) (length D - 1)"
      using that by auto
    ultimately show ?thesis by (simp add: is_peak_def)
  qed
  have 1: "policy = ''average'' \<and> cutoff = mean_list D \<or>
           policy = ''high'' \<and> cutoff = mean_list D + torch_std D \<or>
           policy = ''low'' \<and> cutoff = mean_list D - torch_std D"
    using c by (auto simp add: cutoff_of_def split: if_splits)
  have 2: "\<forall>i < length D. flags ! i = 1 \<longleftrightarrow>
             D ! i > cutoff \<and> D ! i > D ! (if i = 0 then 0 else i - 1) \<and>
             D ! i > D ! (min (i + 1) (length D - 1))"
    using nth peak by simp
  have 3: "D \<noteq> [] \<longrightarrow> flags ! 0 \<noteq> 1 \<and> flags ! (length D - 1) \<noteq> 1"
  proof
    assume ne: "D \<noteq> []"
    then have "0 < length D" "length D - 1 < length D" by simp_all
    with nth[of 0] nth[of "length D - 1"] is_peak_first[of D cutoff] is_peak_last[OF ne, of cutoff]
    show "flags ! 0 \<noteq> 1 \<and> flags ! (length D - 1) \<noteq> 1"
      by (simp add: of_nat_diff)
  qed
  from 1 2 3 show ?thesis by blast
qed

theorem boundary_selection_witness:
  "identify_boundaries [0, 2, 0, 2, 0] ''average'' = Inr [0, 1, 0, 1, 0, 1] \<and>
   mean_list [0, 2, 0, 2, 0] < [0, 2, 0, 2, 0] ! 1 \<and>
   [0, 2, 0, 2, 0 :: real] ! 0 < [0, 2, 0, 2, 0] ! 1 \<and>
   [0, 2, 0, 2, 0 :: real] ! 2 < [0, 2, 0, 2, 0] ! 1 \<and>
   [0, 1, 0, 1, 0, 1 :: real] ! 1 = 1 \<and>
   [0, 1, 0, 1, 0, 1 :: real] ! 0 \<noteq> 1 \<and>
   [0, 1, 0, 1, 0, 1 :: real] ! 4 \<noteq> 1"
proof -
  have e: "identify_boundaries [0, 2, 0, 2, 0] ''average'' = Inr [0, 1, 0, 1, 0, 1]"
    by (simp add: flag_eval)
  from boundary_selection[OF e] e show ?thesis
    by (simp add: mean_list_def)
qed

text \<open>
  Claim C3 as stated fails: in \<open>[3, 0, 0]\<close> the first entry exceeds the mean and its only
  neighbour, and is not flagged.
\<close>

theorem boundary_selection_counterexample:
  "identify_boundaries [3, 0, 0] ''average'' = Inr [0, 0, 0, 1] \<and>
   mean_list [3, 0, 0] < [3, 0, 0] ! 0 \<and> [3, 0, 0 :: real] ! 1 < [3, 0, 0] ! 0"
  by (simp add: flag_eval)

section \<open>The output of the detector\<close>

lemma text_tile_short:
  assumes valid: "check_valid_config k wp ap sw cp"
    and n: "1 \<le> length emb" "length emb \<le> 2"
  shows "text_tile emb k wp ap sw cp = Inl ValueError"
proof -
  define k' where "k' = (if k \<ge> int (length emb) then max (int (length emb) div 5) 2 else k)"
  from valid have vwp: "check_valid_pool_method wp" and vsw: "3 \<le> sw"
    by (simp_all add: check_valid_config_def check_valid_smoothing_width_def)
  from n have "emb \<noteq> []" by auto
  with vwp obtain g where g: "calc_gap_scores emb k' wp = Inr g"
    using calc_gap_scores_succeeds by blast
  have lg: "length g = length emb - 1" using calc_gap_scores_length[OF g] by simp
  have sw: "sw \<ge> int (length emb)" using vsw n by linarith
  have "smooth_scores g 2 = Inl ValueError"
    using lg n smooth_short[of g 2] by (simp add: smooth_scores_def)
  then show ?thesis using valid g sw
    by (simp add: text_tile_def Let_def k'_def[symmetric])
qed

text \<open>
  With a smoothing width one less than the number of embeddings the smoothed scores lose
  an entry, the flags are one too few, and pooling the groups reads past their end.
\<close>

lemma text_tile_width_one_less:
  assumes valid: "check_valid_config k wp ap sw cp" and w: "sw + 1 = int (length emb)"
  shows "text_tile emb k wp ap sw cp = Inl IndexError"
proof -
  define k' where "k' = (if k \<ge> int (length emb) then max (int (length emb) div 5) 2 else k)"
  from valid have vwp: "check_valid_pool_method wp" and vap: "check_valid_pool_method ap"
    and vcp: "check_valid_cutoff_policy cp" and vsw: "3 \<le> sw"
    by (simp_all add: check_valid_config_def check_valid_smoothing_width_def)
  from w vsw have "emb \<noteq> []" by auto
  with vwp obtain g where g: "calc_gap_scores emb k' wp = Inr g"
    using calc_gap_scores_succeeds by blast
  have lg: "length g = length emb - 1" using calc_gap_scores_length[OF g] by simp
  have nsw: "\<not> sw \<ge> int (length emb)" using w by simp
  have "sw = int (length g)" using w lg vsw by simp
  then obtain s where s: "smooth_scores g sw = Inr s" and ls: "length s + 1 = length g"
    using smooth_equal_length[of sw g] vsw by (auto simp add: smooth_scores_def)
  from vcp obtain b where b: "identify_boundaries (calc_depth_scores s) cp = Inr b"
    using identify_boundaries_valid by blast
  note sh = identify_boundaries_shape[OF b, unfolded length_calc_depth_scores]
  have lb: "length b < length emb" using sh(1) ls lg by simp
  from vap obtain pool where pm: "get_pool_method ap = Inr pool"
    by (auto simp add: check_valid_pool_method_def get_pool_method_def)
  have "pool_loop pool b emb 0 [] [] = Inl IndexError"
    using pool_loop_fails[of b 0 emb pool "[]" "[]"] lb by simp
  then have "pool_embedding_groups emb b ap = Inl IndexError"
    using pm by (simp add: pool_embedding_groups_def)
  then show ?thesis using valid g s b nsw
    by (simp add: text_tile_def Let_def k'_def[symmetric])
qed

text \<open>
  Claim C2, as the code has it. Under a valid configuration, for at least three
  embeddings and a smoothing width other than their number less one, \<^verbatim>\<open>text_tile\<close>
  returns as many flags as there are embeddings, the last of them set, and as many
  pooled embeddings as there are set flags, hence at least one. For one or two
  embeddings it raises \<^verbatim>\<open>ValueError\<close>.
\<close>

theorem text_tile_flags_and_groups:
  assumes "check_valid_config k wp ap sw cp"
  shows "(3 \<le> length embeddings \<and> sw + 1 \<noteq> int (length embeddings) \<longrightarrow>
           (\<exists>flags pooled. text_tile embeddings k wp ap sw cp = Inr (flags, pooled) \<and>
              length flags = length embeddings \<and> last flags = 1 \<and>
              length pooled = set_flags flags \<and> 1 \<le> length pooled)) \<and>
         (1 \<le> length embeddings \<and> length embeddings \<le> 2 \<longrightarrow>
           text_tile embeddings k wp ap sw cp = Inl ValueError)"
proof (intro conjI impI)
  assume a: "3 \<le> length embeddings \<and> sw + 1 \<noteq> int (length embeddings)"
  then obtain b p where r: "text_tile embeddings k wp ap sw cp = Inr (b, p)"
    using text_tile_succeeds[OF assms, of embeddings] by blast
  from text_tile_shape[OF r] r
  show "\<exists>flags pooled. text_tile embeddings k wp ap sw cp = Inr (flags, pooled) \<and>
              length flags = length embeddings \<and> last flags = 1 \<and>
              length pooled = set_flags flags \<and> 1 \<le> length pooled"
    by blast
next
  assume "1 \<le> length embeddings \<and> length embeddings \<le> 2"
  then show "text_tile embeddings k wp ap sw cp = Inl ValueError"
    using text_tile_short[OF assms, of embeddings] by blast
qed

theorem text_tile_flags_and_groups_witness:
  "text_tile example_embeddings 5 ''mean'' ''max'' 3 ''average''
     = Inr ([0, 0, 0, 1, 0, 1, 0, 0, 1], [[1], [1], [1]]) \<and>
   length [0, 0, 0, 1, 0, 1, 0, 0, 1 :: real] = length example_embeddings \<and>
   last [0, 0, 0, 1, 0, 1, 0, 0, 1 :: real] = 1 \<and>
   length [[1], [1], [1 :: real]] = set_flags [0, 0, 0, 1, 0, 1, 0, 0, 1] \<and>
   text_tile [[1], [- 1]] 5 ''mean'' ''max'' 3 ''average'' = Inl ValueError"
  using text_tile_flags_and_groups[of 5 "''mean''" "''max''" 3 "''average''" example_embeddings]
        text_tile_flags_and_groups[of 5 "''mean''" "''max''" 3 "''average''" "[[1], [- 1]]"]
        example_text_tile_5
  by (simp add: example_valid example_length set_flags_def)

text \<open>
  Claim C2 as stated fails: on a single embedding, under a valid configuration,
  \<^verbatim>\<open>text_tile\<close> raises.
\<close>

theorem text_tile_counterexample:
  "check_valid_config 5 ''mean'' ''max'' 3 ''high'' \<and>
   text_tile [[1]] 5 ''mean'' ''max'' 3 ''high'' = Inl ValueError"
  by (simp add: text_tile_def calc_gap_scores_def get_pool_method_def smooth_scores_def smooth_def
      check_valid_config_def check_valid_cutoff_policy_def check_valid_pool_method_def
      check_valid_k_def check_valid_smoothing_width_def)

section \<open>Agglomeration rounds\<close>

text \<open>
  Claim C7. The loop over the rounds of one window size returns for every input, with
  the accepted clips or with the exception a round raised; and a round on more than
  eight embeddings that returns at all returns strictly fewer clips and embeddings than
  it was given, one per set flag.
\<close>

theorem agglomeration_terminates:
  "(\<exists>r. text_tile_multiple_rounds cf clips clip_embeddings k min_dur max_dur final_clips = Some r) \<and>
   (\<forall>super_clips super_embeddings.
      8 < length clip_embeddings \<and>
      cf_text_tile cf clips clip_embeddings k = Inr (super_clips, super_embeddings) \<longrightarrow>
        length super_embeddings < length clip_embeddings \<and>
        length super_clips = length super_embeddings \<and>
        length super_clips < length clips)"
proof -
  have "length se < length clip_embeddings \<and> length sc = length se \<and> length sc < length clips"
    if "8 < length clip_embeddings" "cf_text_tile cf clips clip_embeddings k = Inr (sc, se)" for sc se
  proof -
    from that(2) have "length clip_embeddings = length clips"
      by (auto simp add: cf_text_tile_def split: if_splits)
    with cf_text_tile_shape[OF that(2)] that(1) show ?thesis by simp
  qed
  with text_tile_multiple_rounds_terminates[of cf clips clip_embeddings k min_dur max_dur final_clips]
  show ?thesis by blast
qed

theorem agglomeration_terminates_witness:
  "text_tile_multiple_rounds example_cf example_units example_embeddings 5 4 900 []
     = Some (Inr example_groups) \<and>
   cf_text_tile example_cf example_units example_embeddings 5 = Inr (example_groups, [[1], [1], [1]]) \<and>
   8 < length example_embeddings \<and>
   length [[1], [1], [1 :: real]] < length example_embeddings \<and>
   length example_groups < length example_units"
  using agglomeration_terminates[of example_cf example_units example_embeddings 5 4 900 "[]"]
    example_rounds_5[of 4 900 "[]"] example_cf_text_tile_5
  by (simp add: example_length) (simp add: example_groups_def example_units_def sentence_unit_def)

text \<open>
  Claim C1, on the worked transcript at window size 5. The flags are set at positions 3,
  5 and 8, and the pooled embeddings are those of the units 0 to 3, 4 to 5 and 6 to 8.
  The second clip nevertheless starts where unit 3 starts (character 30, second 24), not
  where unit 4 does (character 40, second 26), and the third starts with unit 5, not with
  unit 6: after a boundary the loop keeps the boundary unit as the first unit of the next
  clip.
\<close>

theorem text_tile_round_overlap:
  "cf_text_tile example_cf example_units example_embeddings 5
     = Inr ([\<lparr>start_char = 0, end_char = 40, start_time = 0, end_time = 26, clip_norm = 1\<rparr>,
             \<lparr>start_char = 30, end_char = 60, start_time = 24, end_time = 30, clip_norm = 1\<rparr>,
             \<lparr>start_char = 50, end_char = 90, start_time = 28, end_time = 36, clip_norm = 1\<rparr>],
            [[1], [1], [1]]) \<and>
   example_units ! 3 = sentence_unit 30 40 24 26 \<and>
   example_units ! 4 = sentence_unit 40 50 26 28 \<and>
   pool_embedding_groups example_embeddings [0, 0, 0, 1, 0, 1, 0, 0, 1] ''max''
     = Inr [max_magnitude_2d (take 4 example_embeddings),
            max_magnitude_2d (take 2 (drop 4 example_embeddings)),
            max_magnitude_2d (drop 6 example_embeddings)]"
proof -
  have "pool_embedding_groups example_embeddings [0, 0, 0, 1, 0, 1, 0, 0, 1] ''max''
     = Inr [max_magnitude_2d (take 4 example_embeddings),
            max_magnitude_2d (take 2 (drop 4 example_embeddings)),
            max_magnitude_2d (drop 6 example_embeddings)]"
    unfolding example_embeddings_def by code_simp
  then show ?thesis
    using example_cf_text_tile_5 by (simp add: example_groups_def example_units_def)
qed

section \<open>What the driver accepts\<close>

lemma is_duplicate_iff:
  "is_duplicate c existing \<longleftrightarrow> (\<exists>r \<in> set existing. near_duplicate (to_segment c) (to_segment r))"
  by (induction existing) (auto simp add: near_duplicate_def to_segment_def)

lemma remove_duplicates_member:
  "c \<in> set (remove_duplicates potential existing mn mx) \<Longrightarrow>
     c \<in> set potential \<and> mn \<le> end_time c - start_time c \<and> end_time c - start_time c \<le> mx \<and>
     \<not> is_duplicate c existing"
  by (induction potential) (auto simp add: Let_def split: if_splits)

lemma accepted_in_rounds_append:
  "accepted_in_rounds e (xs @ ys) \<longleftrightarrow> accepted_in_rounds e xs \<and> accepted_in_rounds (e @ concat xs) ys"
  by (induction xs arbitrary: e) auto

lemma rounds_structure:
  "text_tile_multiple_rounds cf clips emb k mn mx fin = Some (Inr r) \<Longrightarrow>
     \<exists>batches. r = fin @ concat batches \<and>
       accepted_in_rounds (map to_segment fin) (map (map to_segment) batches) \<and>
       (\<forall>b \<in> set batches. \<forall>c \<in> set b. mn \<le> end_time c - start_time c \<and> end_time c - start_time c \<le> mx)"
proof (induction "length emb" arbitrary: clips emb fin rule: less_induct)
  case less
  show ?case
  proof (cases "8 < length emb")
    case False
    with less.prems have "r = fin" by (subst (asm) text_tile_multiple_rounds.simps) simp
    then show ?thesis by (intro exI[of _ "[]"]) simp
  next
    case True
    with less.prems obtain sc se where
      round: "cf_text_tile cf clips emb k = Inr (sc, se)" and
      rest: "text_tile_multiple_rounds cf sc se k mn mx (fin @ remove_duplicates sc fin mn mx) = Some (Inr r)"
      by (subst (asm) text_tile_multiple_rounds.simps) (auto split: sum.splits)
    define new where "new = remove_duplicates sc fin mn mx"
    have "length se < length emb" using cf_text_tile_shape[OF round] True by simp
    from less.hyps[OF this rest[folded new_def]] obtain batches where
      b: "r = (fin @ new) @ concat batches"
         "accepted_in_rounds (map to_segment (fin @ new)) (map (map to_segment) batches)"
         "\<forall>b \<in> set batches. \<forall>c \<in> set b. mn \<le> end_time c - start_time c \<and> end_time c - start_time c \<le> mx"
      by blast
    have n1: "\<forall>c \<in> set new. mn \<le> end_time c - start_time c \<and> end_time c - start_time c \<le> mx"
      using remove_duplicates_member[of _ sc fin mn mx] by (auto simp add: new_def)
    have n2: "\<forall>s \<in> set (map to_segment new). \<forall>r \<in> set (map to_segment fin). \<not> near_duplicate s r"
      using remove_duplicates_member[of _ sc fin mn mx] by (auto simp add: new_def is_duplicate_iff)
    show ?thesis
      using b n1 n2 by (intro exI[of _ "new # batches"]) simp
  qed
qed

text \<open>
  The clips accepted by a run of the schedule, entry by entry: each entry of the schedule
  contributes the batches of its rounds, under its own minimum duration.
\<close>

lemma run_schedule_structure:
  "run_schedule cf infos emb sched clips = Some (Inr r) \<Longrightarrow>
     \<exists>per_entry. r = clips @ concat (concat per_entry) \<and>
       accepted_in_rounds (map to_segment clips) (map (map to_segment) (concat per_entry)) \<and>
       list_all2 (\<lambda>entry batches. \<forall>b \<in> set batches. \<forall>c \<in> set b.
                    within_durations (snd entry) (cf_max_clip_duration cf) (to_segment c))
         sched per_entry"
proof (induction sched arbitrary: clips)
  case Nil
  then show ?case by (intro exI[of _ "[]"]) simp
next
  case (Cons entry sched)
  obtain k mn where entry: "entry = (k, mn)" by (cases entry)
  from Cons.prems obtain mid where
    first: "text_tile_multiple_rounds cf infos emb k mn (cf_max_clip_duration cf) clips = Some (Inr mid)" and
    rest: "run_schedule cf infos emb sched mid = Some (Inr r)"
    by (auto simp add: entry split: option.splits sum.splits)
  from rounds_structure[OF first] obtain batches where
    b: "mid = clips @ concat batches"
       "accepted_in_rounds (map to_segment clips) (map (map to_segment) batches)"
       "\<forall>b \<in> set batches. \<forall>c \<in> set b. mn \<le> end_time c - start_time c \<and>
           end_time c - start_time c \<le> cf_max_clip_duration cf"
    by blast
  from Cons.IH[OF rest] obtain per_entry where
    t: "r = mid @ concat (concat per_entry)"
       "accepted_in_rounds (map to_segment mid) (map (map to_segment) (concat per_entry))"
       "list_all2 (\<lambda>entry batches. \<forall>b \<in> set batches. \<forall>c \<in> set b.
                    within_durations (snd entry) (cf_max_clip_duration cf) (to_segment c))
         sched per_entry"
    by blast
  have 1: "r = clips @ concat (concat (batches # per_entry))" using b(1) t(1) by simp
  have 2: "accepted_in_rounds (map to_segment clips)
             (map (map to_segment) (concat (batches # per_entry)))"
    using b(1,2) t(2) by (simp add: accepted_in_rounds_append map_concat)
  have 3: "list_all2 (\<lambda>entry batches. \<forall>b \<in> set batches. \<forall>c \<in> set b.
                    within_durations (snd entry) (cf_max_clip_duration cf) (to_segment c))
         (entry # sched) (batches # per_entry)"
    using b(3) t(3) by (simp add: entry within_durations_def to_segment_def)
  from 1 2 3 show ?case by blast
qed

lemma run_schedule_terminates:
  "\<exists>r. run_schedule cf infos emb sched clips = Some r"
proof (induction sched arbitrary: clips)
  case Nil
  then show ?case by simp
next
  case (Cons entry sched)
  obtain k mn where entry: "entry = (k, mn)" by (cases entry)
  obtain r where r: "text_tile_multiple_rounds cf infos emb k mn (cf_max_clip_duration cf) clips = Some r"
    using text_tile_multiple_rounds_terminates by blast
  show ?case
  proof (cases r)
    case (Inl e)
    with r show ?thesis by (simp add: entry)
  next
    case (Inr mid)
    with r Cons.IH[of mid] show ?thesis by (auto simp add: entry)
  qed
qed

lemma find_clips_terminates: "\<exists>r. find_clips cf infos emb t n = Some r"
  using run_schedule_terminates[of cf infos emb "schedule cf" "seed_clips cf t n"]
  by (auto simp add: find_clips_def split: sum.splits)

lemma accepted_segments_structure:
  assumes "find_clips cf infos emb t n = Some (Inr segments)"
  shows "\<exists>rest. segments = map to_segment (seed_clips cf t n) @ rest"
proof -
  from assms obtain r where
    run: "run_schedule cf infos emb (schedule cf) (seed_clips cf t n) = Some (Inr r)"
    and segs: "segments = map to_segment r"
    by (auto simp add: find_clips_def split: option.splits sum.splits)
  from run_schedule_structure[OF run] obtain per_entry where
    "r = seed_clips cf t n @ concat (concat per_entry)" by blast
  then show ?thesis by (simp add: segs)
qed

text \<open>
  The recorded run and the run have the same result, so the batches of a trace are those
  of the rounds of the run.
\<close>

lemma rounds_trace_project:
  "map_option (map_sum id fst) (rounds_trace cf clips emb k mn mx fin bs)
     = text_tile_multiple_rounds cf clips emb k mn mx fin"
proof (induction "length emb" arbitrary: clips emb fin bs rule: less_induct)
  case less
  show ?case
  proof (cases "8 < length emb")
    case False
    then show ?thesis
      by (subst rounds_trace.simps, subst text_tile_multiple_rounds.simps) simp
  next
    case True
    show ?thesis
    proof (cases "cf_text_tile cf clips emb k")
      case (Inl e)
      with True show ?thesis
        by (subst rounds_trace.simps, subst text_tile_multiple_rounds.simps) simp
    next
      case (Inr res)
      obtain sc se where res: "res = (sc, se)" by (cases res)
      with Inr have "length se < length emb"
        using cf_text_tile_shape[of cf clips emb k sc se] True by simp
      from less[OF this] True Inr res show ?thesis
        by (subst rounds_trace.simps, subst text_tile_multiple_rounds.simps) simp
    qed
  qed
qed

lemma rounds_trace_structure:
  "rounds_trace cf clips emb k mn mx fin bs = Some (Inr (r, bs')) \<Longrightarrow>
     \<exists>new. bs' = bs @ new \<and> r = fin @ concat new \<and>
       accepted_in_rounds (map to_segment fin) (map (map to_segment) new) \<and>
       (\<forall>b \<in> set new. \<forall>c \<in> set b. within_durations mn mx (to_segment c))"
proof (induction "length emb" arbitrary: clips emb fin bs rule: less_induct)
  case less
  show ?case
  proof (cases "8 < length emb")
    case False
    with less.prems have "r = fin" "bs' = bs" by (subst (asm) rounds_trace.simps, simp)+
    then show ?thesis by (intro exI[of _ "[]"]) simp
  next
    case True
    with less.prems obtain sc se where
      round: "cf_text_tile cf clips emb k = Inr (sc, se)" and
      rest: "rounds_trace cf sc se k mn mx (fin @ remove_duplicates sc fin mn mx)
               (bs @ [remove_duplicates sc fin mn mx]) = Some (Inr (r, bs'))"
      by (subst (asm) rounds_trace.simps) (auto split: sum.splits)
    define new where "new = remove_duplicates sc fin mn mx"
    have "length se < length emb" using cf_text_tile_shape[OF round] True by simp
    from less.hyps[OF this rest[folded new_def]] obtain later where
      b: "bs' = (bs @ [new]) @ later" "r = (fin @ new) @ concat later"
         "accepted_in_rounds (map to_segment (fin @ new)) (map (map to_segment) later)"
         "\<forall>b \<in> set later. \<forall>c \<in> set b. within_durations mn mx (to_segment c)"
      by blast
    have n1: "\<forall>c \<in> set new. within_durations mn mx (to_segment c)"
      using remove_duplicates_member[of _ sc fin mn mx]
      by (auto simp add: new_def within_durations_def to_segment_def)
    have n2: "\<forall>s \<in> set (map to_segment new). \<forall>r \<in> set (map to_segment fin). \<not> near_duplicate s r"
      using remove_duplicates_member[of _ sc fin mn mx] by (auto simp add: new_def is_duplicate_iff)
    show ?thesis
      using b n1 n2 by (intro exI[of _ "new # later"]) simp
  qed
qed

lemma schedule_trace_project:
  "map_option (map_sum id fst) (schedule_trace cf infos emb sched clips pe)
     = run_schedule cf infos emb sched clips"
proof (induction sched arbitrary: clips pe)
  case Nil
  then show ?case by simp
next
  case (Cons entry sched)
  obtain k mn where entry: "entry = (k, mn)" by (cases entry)
  note p = rounds_trace_project[of cf infos emb k mn "cf_max_clip_duration cf" clips "[]"]
  show ?case
  proof (cases "rounds_trace cf infos emb k mn (cf_max_clip_duration cf) clips []")
    case None
    with p[symmetric] show ?thesis by (simp add: entry)
  next
    case (Some res)
    show ?thesis
    proof (cases res)
      case (Inl e)
      with Some p[symmetric] show ?thesis by (simp add: entry)
    next
      case (Inr pair)
      obtain mid batches where "pair = (mid, batches)" by (cases pair)
      with Inr Some p[symmetric] Cons.IH[of mid "pe @ [batches]"] show ?thesis
        by (simp add: entry)
    qed
  qed
qed

lemma schedule_trace_structure:
  "schedule_trace cf infos emb sched clips pe = Some (Inr (r, pe')) \<Longrightarrow>
     \<exists>new. pe' = pe @ new \<and> r = clips @ concat (concat new) \<and>
       accepted_in_rounds (map to_segment clips) (map (map to_segment) (concat new)) \<and>
       list_all2 (\<lambda>entry batches. \<forall>b \<in> set batches. \<forall>c \<in> set b.
                    within_durations (snd entry) (cf_max_clip_duration cf) (to_segment c))
         sched new"
proof (induction sched arbitrary: clips pe)
  case Nil
  then show ?case by (intro exI[of _ "[]"]) simp
next
  case (Cons entry sched)
  obtain k mn where entry: "entry = (k, mn)" by (cases entry)
  from Cons.prems obtain mid batches where
    first: "rounds_trace cf infos emb k mn (cf_max_clip_duration cf) clips [] = Some (Inr (mid, batches))" and
    rest: "schedule_trace cf infos emb sched mid (pe @ [batches]) = Some (Inr (r, pe'))"
    by (auto simp add: entry split: option.splits sum.splits)
  from rounds_trace_structure[OF first] have
    b: "mid = clips @ concat batches"
       "accepted_in_rounds (map to_segment clips) (map (map to_segment) batches)"
       "\<forall>b \<in> set batches. \<forall>c \<in> set b. within_durations mn (cf_max_clip_duration cf) (to_segment c)"
    by auto
  from Cons.IH[OF rest] obtain later where
    t: "pe' = (pe @ [batches]) @ later" "r = mid @ concat (concat later)"
       "accepted_in_rounds (map to_segment mid) (map (map to_segment) (concat later))"
       "list_all2 (\<lambda>entry batches. \<forall>b \<in> set batches. \<forall>c \<in> set b.
                    within_durations (snd entry) (cf_max_clip_duration cf) (to_segment c))
         sched later"
    by blast
  have 0: "pe' = pe @ (batches # later)" using t(1) by simp
  have 1: "r = clips @ concat (concat (batches # later))" using b(1) t(2) by simp
  have 2: "accepted_in_rounds (map to_segment clips)
             (map (map to_segment) (concat (batches # later)))"
    using b(1,2) t(3) by (simp add: accepted_in_rounds_append map_concat)
  have 3: "list_all2 (\<lambda>entry batches. \<forall>b \<in> set batches. \<forall>c \<in> set b.
                    within_durations (snd entry) (cf_max_clip_duration cf) (to_segment c))
         (entry # sched) (batches # later)"
    using b(3) t(4) by (simp add: entry)
  from 0 1 2 3 show ?case by blast
qed

lemma find_clips_trace_project:
  "map_option (map_sum id fst) (find_clips_trace cf infos emb t n) = find_clips cf infos emb t n"
  using schedule_trace_project[of cf infos emb "schedule cf" "seed_clips cf t n" "[]", symmetric]
  by (auto simp add: find_clips_trace_def find_clips_def split: option.splits sum.splits)

lemma accepted_in_rounds_nth:
  "accepted_in_rounds e rs \<longleftrightarrow>
     (\<forall>j < length rs. \<forall>s \<in> set (rs ! j). \<forall>r \<in> set e \<union> set (concat (take j rs)). \<not> near_duplicate s r)"
proof (induction rs arbitrary: e)
  case Nil
  then show ?case by simp
next
  case (Cons b rs)
  have "(\<forall>j < length (b # rs). \<forall>s \<in> set ((b # rs) ! j).
           \<forall>r \<in> set e \<union> set (concat (take j (b # rs))). \<not> near_duplicate s r)
      \<longleftrightarrow> (\<forall>s \<in> set b. \<forall>r \<in> set e. \<not> near_duplicate s r) \<and>
          (\<forall>j < length rs. \<forall>s \<in> set (rs ! j).
             \<forall>r \<in> set (e @ b) \<union> set (concat (take j rs)). \<not> near_duplicate s r)"
    (is "?L \<longleftrightarrow> ?A \<and> ?B")
  proof
    assume l: ?L
    have ?A using l[rule_format, of 0] by simp
    moreover have ?B
    proof (intro allI impI ballI)
      fix j s r
      assume "j < length rs" "s \<in> set (rs ! j)" "r \<in> set (e @ b) \<union> set (concat (take j rs))"
      then show "\<not> near_duplicate s r" using l[rule_format, of "Suc j" s r] by auto
    qed
    ultimately show "?A \<and> ?B" by simp
  next
    assume ab: "?A \<and> ?B"
    show ?L
    proof (intro allI impI ballI)
      fix j s r
      assume j: "j < length (b # rs)" and s: "s \<in> set ((b # rs) ! j)"
        and r: "r \<in> set e \<union> set (concat (take j (b # rs)))"
      show "\<not> near_duplicate s r"
      proof (cases j)
        case 0
        with s r ab show ?thesis by simp
      next
        case (Suc j')
        with j s r have "j' < length rs" "s \<in> set (rs ! j')"
          "r \<in> set (e @ b) \<union> set (concat (take j' rs))" by auto
        with ab show ?thesis by blast
      qed
    qed
  qed
  then show ?case by (simp add: Cons.IH)
qed

lemma find_clips_trace_exists:
  assumes "find_clips cf infos emb t n = Some (Inr segments)"
  shows "\<exists>per_entry. find_clips_trace cf infos emb t n = Some (Inr (segments, per_entry))"
proof -
  have "map_option (map_sum id fst) (find_clips_trace cf infos emb t n) = Some (Inr segments)"
    using assms by (simp add: find_clips_trace_project)
  then obtain res where res: "find_clips_trace cf infos emb t n = Some res"
    "map_sum id fst res = Inr segments" by auto
  then obtain pair where "res = Inr pair" "fst pair = segments" by (cases res) auto
  with res(1) show ?thesis by (cases pair) auto
qed

lemma find_clips_trace_structure:
  assumes "find_clips_trace cf infos emb t n = Some (Inr (segments, per_entry))"
  shows "find_clips cf infos emb t n = Some (Inr segments)"
    and "segments = map to_segment (seed_clips cf t n) @ concat (concat per_entry)"
    and "accepted_in_rounds (map to_segment (seed_clips cf t n)) (concat per_entry)"
    and "list_all2 (\<lambda>entry batches. \<forall>batch \<in> set batches. \<forall>s \<in> set batch.
                      within_durations (snd entry) (cf_max_clip_duration cf) s)
           (schedule cf) per_entry"
proof -
  show "find_clips cf infos emb t n = Some (Inr segments)"
    using find_clips_trace_project[of cf infos emb t n] assms by simp
  from assms obtain clips pe where
    st: "schedule_trace cf infos emb (schedule cf) (seed_clips cf t n) [] = Some (Inr (clips, pe))"
    and segs: "segments = map to_segment clips"
    and per: "per_entry = map (map (map to_segment)) pe"
    by (auto simp add: find_clips_trace_def split: option.splits sum.splits)
  from schedule_trace_structure[OF st] have
    c: "clips = seed_clips cf t n @ concat (concat pe)" and
    a: "accepted_in_rounds (map to_segment (seed_clips cf t n)) (map (map to_segment) (concat pe))" and
    d: "list_all2 (\<lambda>entry batches. \<forall>b \<in> set batches. \<forall>c \<in> set b.
                    within_durations (snd entry) (cf_max_clip_duration cf) (to_segment c))
         (schedule cf) pe"
    by auto
  have cc: "concat per_entry = map (map to_segment) (concat pe)"
    by (simp add: per map_concat)
  show "segments = map to_segment (seed_clips cf t n) @ concat (concat per_entry)"
    by (simp add: segs c cc map_concat)
  show "accepted_in_rounds (map to_segment (seed_clips cf t n)) (concat per_entry)"
    using a by (simp add: cc)
  show "list_all2 (\<lambda>entry batches. \<forall>batch \<in> set batches. \<forall>s \<in> set batch.
                      within_durations (snd entry) (cf_max_clip_duration cf) s)
           (schedule cf) per_entry"
    using d by (auto simp add: per list_all2_map2 elim!: list_all2_mono)
qed

lemma schedule_table:
  "schedule cf = [(5, cf_min_clip_duration cf), (7, cf_min_clip_duration cf), (11, 180), (17, 180),
                  (37, 600), (53, 600), (73, 600), (97, 600)]"
  by (simp add: schedule_def)

lemma example_rounds_trace_stop:
  "rounds_trace cf clips [[1], [1], [1]] k mn mx fin bs = Some (Inr (fin, bs))"
  "rounds_trace cf clips [[1]] k mn mx fin bs = Some (Inr (fin, bs))"
  by (subst rounds_trace.simps, simp)+

lemma example_rounds_trace_5:
  "rounds_trace example_cf example_units example_embeddings 5 mn mx fin bs
     = Some (Inr (fin @ remove_duplicates example_groups fin mn mx,
                  bs @ [remove_duplicates example_groups fin mn mx]))"
  by (subst rounds_trace.simps)
     (simp add: example_length example_cf_text_tile_5 example_rounds_trace_stop)

lemma example_rounds_trace_7:
  "rounds_trace example_cf example_units example_embeddings 7 mn mx fin bs
     = Some (Inr (fin @ remove_duplicates example_groups fin mn mx,
                  bs @ [remove_duplicates example_groups fin mn mx]))"
  by (subst rounds_trace.simps)
     (simp add: example_length example_cf_text_tile_7 example_rounds_trace_stop)

lemma example_rounds_trace_wide:
  "9 \<le> k \<Longrightarrow> rounds_trace example_cf example_units example_embeddings k mn mx fin bs
     = Some (Inr (fin @ remove_duplicates [example_whole] fin mn mx,
                  bs @ [remove_duplicates [example_whole] fin mn mx]))"
  by (subst rounds_trace.simps)
     (simp add: example_length example_cf_text_tile_wide example_rounds_trace_stop)

lemma example_schedule_trace:
  "schedule_trace example_cf example_units example_embeddings (schedule example_cf) [example_whole] []
     = Some (Inr (example_accepted, [[tl example_accepted], [[]], [[]], [[]], [[]], [[]], [[]], [[]]]))"
proof -
  have first: "example_whole # tl example_accepted = example_accepted"
    by (simp add: example_accepted_def example_whole_def)
  have s1: "rounds_trace example_cf example_units example_embeddings 5 4 900
      [example_whole] [] = Some (Inr (example_accepted, [tl example_accepted]))"
    by (simp add: example_rounds_trace_5 example_tier_1 first)
  have s2: "rounds_trace example_cf example_units example_embeddings 7 4 900
      example_accepted [] = Some (Inr (example_accepted, [[]]))"
    by (simp add: example_rounds_trace_7 example_tier_1_again)
  have s3: "rounds_trace example_cf example_units example_embeddings k mn 900
      example_accepted [] = Some (Inr (example_accepted, [[]]))" if "9 \<le> k" "180 \<le> mn" for k mn
    using that by (simp add: example_rounds_trace_wide example_too_short del: remove_duplicates.simps)
  show ?thesis
    by (simp add: example_schedule example_max s1 s2 s3)
qed

lemma example_find_clips_trace:
  "find_clips_trace example_cf example_units example_embeddings 36 90 =
     Some (Inr (example_segments, [[tl example_segments], [[]], [[]], [[]], [[]], [[]], [[]], [[]]]))"
  by (simp add: find_clips_trace_def example_seed example_schedule_trace)
     (simp add: example_accepted_def example_segments_def to_segment_def)

text \<open>
  Claim C4, as the code has it. Whenever \<^verbatim>\<open>find_clips\<close> returns, its rounds are those of
  the trace; the segments returned are the seed segment, when there is one, followed by
  the batches of the rounds in order; and a segment accepted in round \<open>j\<close> is not a
  near-duplicate of the seed segment nor of any segment accepted in a round before \<open>j\<close>.
  Segments of the same round are not compared with each other.
\<close>

theorem accepted_segments_apart:
  "(find_clips cf sentences_info sentence_embeddings t n = Some (Inr segments) \<longrightarrow>
      (\<exists>per_entry. find_clips_trace cf sentences_info sentence_embeddings t n
                      = Some (Inr (segments, per_entry)))) \<and>
   (find_clips_trace cf sentences_info sentence_embeddings t n = Some (Inr (segments, per_entry)) \<longrightarrow>
      find_clips cf sentences_info sentence_embeddings t n = Some (Inr segments) \<and>
      segments = map to_segment (seed_clips cf t n) @ concat (concat per_entry) \<and>
      (\<forall>j < length (concat per_entry). \<forall>s \<in> set (concat per_entry ! j).
         \<forall>r \<in> set (map to_segment (seed_clips cf t n)) \<union> set (concat (take j (concat per_entry))).
           \<not> near_duplicate s r))"
  using find_clips_trace_exists[of cf sentences_info sentence_embeddings t n segments]
        find_clips_trace_structure(1,2,3)[of cf sentences_info sentence_embeddings t n segments per_entry]
  unfolding accepted_in_rounds_nth by blast

theorem accepted_segments_apart_witness:
  "find_clips_trace example_cf example_units example_embeddings 36 90 =
     Some (Inr (example_segments, [[tl example_segments], [[]], [[]], [[]], [[]], [[]], [[]], [[]]])) \<and>
   find_clips example_cf example_units example_embeddings 36 90 = Some (Inr example_segments) \<and>
   \<not> near_duplicate (example_segments ! 1) (example_segments ! 0) \<and>
   \<not> near_duplicate (example_segments ! 2) (example_segments ! 0)"
proof -
  note t = accepted_segments_apart[of example_cf example_units example_embeddings 36 90
      example_segments "[[tl example_segments], [[]], [[]], [[]], [[]], [[]], [[]], [[]]]"]
  from t example_find_clips_trace
  have "find_clips example_cf example_units example_embeddings 36 90 = Some (Inr example_segments)"
    by blast
  moreover have "\<not> near_duplicate (example_segments ! 1) (example_segments ! 0)"
    "\<not> near_duplicate (example_segments ! 2) (example_segments ! 0)"
    by (simp_all add: example_segments_def near_duplicate_def)
  ultimately show ?thesis using example_find_clips_trace by simp
qed

text \<open>
  Claim C4 as stated fails: on the worked transcript \<^verbatim>\<open>find_clips\<close> returns two
  segments, accepted in the same round, whose begin times differ by 4 seconds and whose
  finish times differ by 6.
\<close>

theorem accepted_segments_counterexample:
  "find_clips example_cf example_units example_embeddings 36 90 =
     Some (Inr [\<lparr>begin_sec = 0, finish_sec = 36, text_start_idx = 0, text_end_idx = 90\<rparr>,
                \<lparr>begin_sec = 24, finish_sec = 30, text_start_idx = 30, text_end_idx = 60\<rparr>,
                \<lparr>begin_sec = 28, finish_sec = 36, text_start_idx = 50, text_end_idx = 90\<rparr>]) \<and>
   \<bar>(24 :: real) - 28\<bar> + \<bar>30 - 36\<bar> < 15 \<and>
   near_duplicate \<lparr>begin_sec = 24, finish_sec = 30, text_start_idx = 30, text_end_idx = 60\<rparr>
                  \<lparr>begin_sec = 28, finish_sec = 36, text_start_idx = 50, text_end_idx = 90\<rparr>"
  using example_find_clips by (simp add: near_duplicate_def)

lemma run_schedule_idle:
  "\<not> 8 < length emb \<Longrightarrow> run_schedule cf infos emb sched clips = Some (Inr clips)"
proof (induction sched arbitrary: clips)
  case Nil
  then show ?case by simp
next
  case (Cons entry sched)
  obtain k mn where entry: "entry = (k, mn)" by (cases entry)
  have "text_tile_multiple_rounds cf infos emb k mn (cf_max_clip_duration cf) clips
      = Some (Inr clips)"
    using Cons.prems by (subst text_tile_multiple_rounds.simps) simp
  with Cons show ?case by (simp add: entry)
qed

text \<open>
  Claim C5. Whenever \<^verbatim>\<open>find_clips\<close> returns, the segments after the seed segment are
  the batches its rounds accepted, and every segment accepted by a round of a schedule
  entry lasts at least the minimum duration of that entry and at most the maximum clip
  duration: the configured minimum for the window sizes 5 and 7, 180 seconds for 11 and
  17, 600 seconds for 37, 53, 73 and 97. Under the bounds 15 and 900 a candidate from
  second 0 to second 10 is not accepted.
\<close>

theorem accepted_durations:
  "(find_clips cf sentences_info sentence_embeddings t n = Some (Inr segments) \<longrightarrow>
      (\<exists>per_entry. find_clips_trace cf sentences_info sentence_embeddings t n
                      = Some (Inr (segments, per_entry)))) \<and>
   (find_clips_trace cf sentences_info sentence_embeddings t n = Some (Inr (segments, per_entry)) \<longrightarrow>
      segments = map to_segment (seed_clips cf t n) @ concat (concat per_entry) \<and>
      list_all2 (\<lambda>(k, min_sec) batches. \<forall>batch \<in> set batches. \<forall>s \<in> set batch.
                   within_durations min_sec (cf_max_clip_duration cf) s)
        (schedule cf) per_entry) \<and>
   schedule cf = [(5, cf_min_clip_duration cf), (7, cf_min_clip_duration cf), (11, 180), (17, 180),
                  (37, 600), (53, 600), (73, 600), (97, 600)] \<and>
   (start_time c = 0 \<and> end_time c = 10 \<longrightarrow>
      c \<notin> set (remove_duplicates potential existing 15 900))"
proof -
  have 1: "find_clips cf sentences_info sentence_embeddings t n = Some (Inr segments) \<longrightarrow>
      (\<exists>per_entry. find_clips_trace cf sentences_info sentence_embeddings t n
                      = Some (Inr (segments, per_entry)))"
    using find_clips_trace_exists by blast
  have 2: "find_clips_trace cf sentences_info sentence_embeddings t n = Some (Inr (segments, per_entry)) \<longrightarrow>
      segments = map to_segment (seed_clips cf t n) @ concat (concat per_entry) \<and>
      list_all2 (\<lambda>(k, min_sec) batches. \<forall>batch \<in> set batches. \<forall>s \<in> set batch.
                   within_durations min_sec (cf_max_clip_duration cf) s)
        (schedule cf) per_entry"
    using find_clips_trace_structure(2,4)[of cf sentences_info sentence_embeddings t n segments per_entry]
    by (simp add: case_prod_unfold)
  have 3: "start_time c = 0 \<and> end_time c = 10 \<longrightarrow>
      c \<notin> set (remove_duplicates potential existing 15 900)"
    using remove_duplicates_member[of c potential existing 15 900] by auto
  from 1 2 3 schedule_table[of cf] show ?thesis by blast
qed

theorem accepted_durations_witness:
  "find_clips_trace example_cf example_units example_embeddings 36 90 =
     Some (Inr (example_segments, [[tl example_segments], [[]], [[]], [[]], [[]], [[]], [[]], [[]]])) \<and>
   list_all2 (\<lambda>(k, min_sec) batches. \<forall>batch \<in> set batches. \<forall>s \<in> set batch.
                within_durations min_sec (cf_max_clip_duration example_cf) s)
     (schedule example_cf) [[tl example_segments], [[]], [[]], [[]], [[]], [[]], [[]], [[]]] \<and>
   sentence_unit 0 25 0 10 \<notin> set (remove_duplicates [sentence_unit 0 25 0 10] [] 15 900)"
  using accepted_durations[of example_cf example_units example_embeddings 36 90
          example_segments "[[tl example_segments], [[]], [[]], [[]], [[]], [[]], [[]], [[]]]"
          "sentence_unit 0 25 0 10" "[sentence_unit 0 25 0 10]" "[]"]
        example_find_clips_trace
  by (simp add: sentence_unit_def example_schedule example_max)

text \<open>
  Claim C6. When the end time of the transcript does not exceed the maximum clip
  duration, every list \<^verbatim>\<open>find_clips\<close> returns starts with the whole-transcript segment,
  from second 0 to the end time and from character 0 to the number of characters; and
  when there are at most eight embeddings, so that no round runs, it returns exactly
  that segment.
\<close>

theorem whole_transcript_seed:
  assumes "t \<le> cf_max_clip_duration cf"
  shows "(find_clips cf sentences_info sentence_embeddings t n = Some (Inr segments) \<longrightarrow>
           segments \<noteq> [] \<and>
           hd segments = \<lparr>begin_sec = 0, finish_sec = t, text_start_idx = 0, text_end_idx = int n\<rparr> \<and>
           \<lparr>begin_sec = 0, finish_sec = t, text_start_idx = 0, text_end_idx = int n\<rparr> \<in> set segments) \<and>
         (length sentence_embeddings \<le> 8 \<longrightarrow>
           find_clips cf sentences_info sentence_embeddings t n
             = Some (Inr [\<lparr>begin_sec = 0, finish_sec = t, text_start_idx = 0, text_end_idx = int n\<rparr>]))"
proof (intro conjI impI)
  let ?seed = "\<lparr>begin_sec = 0, finish_sec = t, text_start_idx = 0, text_end_idx = int n\<rparr>"
  have seed: "map to_segment (seed_clips cf t n) = [?seed]"
    using assms by (simp add: seed_clips_def to_segment_def)
  {
    assume "find_clips cf sentences_info sentence_embeddings t n = Some (Inr segments)"
    from accepted_segments_structure[OF this] obtain rest where
      "segments = map to_segment (seed_clips cf t n) @ rest" by blast
    then have s: "segments = ?seed # rest" by (simp add: seed)
    from s show "segments \<noteq> []" by simp
    from s show "hd segments = ?seed" by simp
    from s show "?seed \<in> set segments" by simp
  }
  {
    assume "length sentence_embeddings \<le> 8"
    then have "run_schedule cf sentences_info sentence_embeddings (schedule cf) (seed_clips cf t n)
        = Some (Inr (seed_clips cf t n))"
      by (intro run_schedule_idle) simp
    then show "find_clips cf sentences_info sentence_embeddings t n = Some (Inr [?seed])"
      by (simp add: find_clips_def seed)
  }
qed

theorem whole_transcript_seed_witness:
  "(36 :: real) \<le> cf_max_clip_duration example_cf \<and>
   find_clips example_cf example_units example_embeddings 36 90 =
     Some (Inr [\<lparr>begin_sec = 0, finish_sec = 36, text_start_idx = 0, text_end_idx = 90\<rparr>,
                \<lparr>begin_sec = 24, finish_sec = 30, text_start_idx = 30, text_end_idx = 60\<rparr>,
                \<lparr>begin_sec = 28, finish_sec = 36, text_start_idx = 50, text_end_idx = 90\<rparr>]) \<and>
   \<lparr>begin_sec = 0, finish_sec = 36, text_start_idx = 0, text_end_idx = 90\<rparr>
     \<in> set [\<lparr>begin_sec = 0, finish_sec = 36, text_start_idx = 0, text_end_idx = 90\<rparr>,
            \<lparr>begin_sec = 24, finish_sec = 30, text_start_idx = 30, text_end_idx = 60\<rparr>,
            \<lparr>begin_sec = 28, finish_sec = 36, text_start_idx = 50, text_end_idx = 90\<rparr>] \<and>
   (500 :: real) \<le> cf_max_clip_duration example_cf \<and>
   find_clips example_cf (take 8 example_units) (take 8 example_embeddings) 500 80
     = Some (Inr [\<lparr>begin_sec = 0, finish_sec = 500, text_start_idx = 0, text_end_idx = 80\<rparr>])"
  using whole_transcript_seed[of 36 example_cf example_units example_embeddings 90]
        whole_transcript_seed[of 500 example_cf "take 8 example_units" "take 8 example_embeddings" 80]
        example_find_clips example_max
  by simp

end
